theory Spec2Isabelle
  imports Main "HOL-Library.Multiset"
begin

section \<open>The fact store: restaurants and their yearly awards\<close>

text \<open>
  The store is the SQLite database behind \<^verbatim>\<open>storage.SQLiteRepository\<close>: a table
  of restaurants and a table of awards. A table is the list of its rows in primary-key
  order; a new row is appended with an identifier above every identifier in use. The
  model gives it the least such identifier; SQLite, whose keys are
  \<^verbatim>\<open>AUTOINCREMENT\<close>, may skip identifiers, and the properties below depend on the
  identifier of a new row being fresh only.
  A clock reading is an integer; GORM stamps \<^verbatim>\<open>created_at\<close> and
  \<^verbatim>\<open>updated_at\<close> from its \<^verbatim>\<open>NowFunc\<close>, which the model takes as the
  argument \<open>now\<close> of every operation that writes.

  The column \<^verbatim>\<open>in_guide\<close> may hold SQL NULL (the source tests for it), so it is a
  \<open>bool option\<close>; Go reads NULL into its \<^verbatim>\<open>bool\<close> field as \<^verbatim>\<open>false\<close>.

  The database is taken to answer every statement: the only lookup failure of the model
  is \<^verbatim>\<open>gorm.ErrRecordNotFound\<close>, and a write succeeds. The constraints the
  operations rely on are the primary keys and the uniqueness of (restaurant, year) among
  the awards; they are stated as predicates on the store further down and appear as
  hypotheses where a property needs them.
\<close>

type_synonym clock = int

record Restaurant =
  ID :: nat
  URL :: string
  Name :: string
  Description :: string
  Address :: string
  Location :: string
  Latitude :: string
  Longitude :: string
  Cuisine :: string
  PhoneNumber :: string
  FacilitiesAndServices :: string
  WebsiteURL :: string
  InGuide :: "bool option"
  CreatedAt :: clock
  UpdatedAt :: clock

record RestaurantAward =
  award_ID :: nat
  RestaurantID :: nat
  Year :: int
  Distinction :: string
  Price :: string
  GreenStar :: bool
  WaybackURL :: string
  award_CreatedAt :: clock
  award_UpdatedAt :: clock

record Store =
  restaurants :: "Restaurant list"
  awards :: "RestaurantAward list"

text \<open>The next free primary key of a table whose keys in use are \<open>ids\<close>.\<close>

definition fresh_id :: "nat list \<Rightarrow> nat" where
  "fresh_id ids = Suc (fold max ids 0)"

text \<open>Go's reading of the \<^verbatim>\<open>in_guide\<close> column into \<^verbatim>\<open>Restaurant.InGuide\<close>.\<close>

definition inGuide_bool :: "Restaurant \<Rightarrow> bool" where
  "inGuide_bool r = (InGuide r = Some True)"

subsection \<open>SaveAward\<close>

definition same_slot :: "RestaurantAward \<Rightarrow> RestaurantAward \<Rightarrow> bool" where
  "same_slot award e = (RestaurantID e = RestaurantID award \<and> Year e = Year award)"

text \<open>
  \<^verbatim>\<open>Clauses(clause.OnConflict{Columns: restaurant_id, year; DoUpdates: distinction,
  price, green_star, wayback_url, updated_at}).Create(award)\<close>: a row of the same
  (restaurant, year) gets the five listed columns of the incoming award; without such a
  row the award is inserted. Every caller passes an award with a zero identifier, so the
  inserted row gets the next free one.
\<close>

definition upsert_award :: "clock \<Rightarrow> RestaurantAward \<Rightarrow> RestaurantAward list \<Rightarrow> RestaurantAward list" where
  "upsert_award now award rows =
     (if list_ex (same_slot award) rows
      then map (\<lambda>e. if same_slot award e
                      then e\<lparr>Distinction := Distinction award, Price := Price award,
                             GreenStar := GreenStar award, WaybackURL := WaybackURL award,
                             award_UpdatedAt := now\<rparr>
                      else e) rows
      else rows @ [award\<lparr>award_ID := fresh_id (map award_ID rows),
                          award_CreatedAt := now, award_UpdatedAt := now\<rparr>])"

definition SaveAward :: "clock \<Rightarrow> RestaurantAward \<Rightarrow> Store \<Rightarrow> Store" where
  "SaveAward now award s =
     (case find (same_slot award) (awards s) of
        Some existing \<Rightarrow>
          if WaybackURL existing = [] \<and> WaybackURL award \<noteq> []
          then s
          else s\<lparr>awards := upsert_award now award (awards s)\<rparr>
      | None \<Rightarrow> s\<lparr>awards := upsert_award now award (awards s)\<rparr>)"

subsection \<open>UpsertRestaurantWithAward\<close>

text \<open>
  \<^verbatim>\<open>storage.RestaurantData\<close> is the fact handed over by the extractors. Its
  \<^verbatim>\<open>InGuide\<close> is a \<^verbatim>\<open>*bool\<close>: \<open>None\<close> is \<^verbatim>\<open>nil\<close>.
\<close>

record RestaurantData =
  d_URL :: string
  d_Name :: string
  d_Description :: string
  d_Address :: string
  d_Location :: string
  d_Latitude :: string
  d_Longitude :: string
  d_Cuisine :: string
  d_FacilitiesAndServices :: string
  d_PhoneNumber :: string
  d_WebsiteURL :: string
  d_InGuide :: "bool option"
  d_Year :: int
  d_Distinction :: string
  d_Price :: string
  d_GreenStar :: bool
  d_WaybackURL :: string

text \<open>The log of the model keeps the warnings and the errors the source writes, and the
  debug entry of the error handler.\<close>

datatype level = Debug | Info | Warn | Error

type_synonym log = "(level \<times> string) list"

definition FindRestaurantByURL :: "string \<Rightarrow> Store \<Rightarrow> Restaurant option" where
  "FindRestaurantByURL url s = find (\<lambda>r. URL r = url) (restaurants s)"

definition FindRestaurantByWebsiteURL :: "string \<Rightarrow> Store \<Rightarrow> Restaurant option" where
  "FindRestaurantByWebsiteURL websiteURL s =
     find (\<lambda>r. WebsiteURL r = websiteURL \<and> WebsiteURL r \<noteq> []) (restaurants s)"

text \<open>\<^verbatim>\<open>db.Save(&restaurant)\<close> on a row that was read from the table: every column of
  the row with that primary key is written.\<close>

definition save_restaurant :: "Restaurant \<Rightarrow> Restaurant list \<Rightarrow> Restaurant list" where
  "save_restaurant restaurant rows = map (\<lambda>r. if ID r = ID restaurant then restaurant else r) rows"

definition UpsertRestaurantWithAward :: "clock \<Rightarrow> RestaurantData \<Rightarrow> Store \<Rightarrow> Store \<times> log" where
  "UpsertRestaurantWithAward now data s =
     (let inGuide = (case d_InGuide data of Some b \<Rightarrow> b | None \<Rightarrow> True);
          (restaurant, s1) =
            (case find (\<lambda>r. URL r = d_URL data) (restaurants s) of
               None \<Rightarrow>
                 (let restaurant =
                        \<lparr>ID = fresh_id (map ID (restaurants s)),
                         URL = d_URL data,
                         Name = d_Name data,
                         Description = d_Description data,
                         Address = d_Address data,
                         Location = d_Location data,
                         Latitude = d_Latitude data,
                         Longitude = d_Longitude data,
                         Cuisine = d_Cuisine data,
                         PhoneNumber = d_PhoneNumber data,
                         FacilitiesAndServices = d_FacilitiesAndServices data,
                         WebsiteURL = d_WebsiteURL data,
                         InGuide = Some inGuide,
                         CreatedAt = now,
                         UpdatedAt = now\<rparr>
                  in (restaurant, s\<lparr>restaurants := restaurants s @ [restaurant]\<rparr>))
             | Some existingRestaurant \<Rightarrow>
                 (let restaurant =
                        existingRestaurant
                          \<lparr>Name := d_Name data,
                           Description := d_Description data,
                           Address := d_Address data,
                           Location := d_Location data,
                           Latitude := d_Latitude data,
                           Longitude := d_Longitude data,
                           Cuisine := d_Cuisine data,
                           FacilitiesAndServices := d_FacilitiesAndServices data,
                           PhoneNumber := d_PhoneNumber data,
                           WebsiteURL := d_WebsiteURL data,
                           InGuide := Some inGuide,
                           UpdatedAt := now\<rparr>
                  in (restaurant, s\<lparr>restaurants := save_restaurant restaurant (restaurants s)\<rparr>)))
      in if d_Year data \<le> 0
         then (s1, [(Warn, ''Skipping award upsert due to invalid year'')])
         else (SaveAward now
                 \<lparr>award_ID = 0,
                  RestaurantID = ID restaurant,
                  Year = d_Year data,
                  Distinction = d_Distinction data,
                  Price = d_Price data,
                  GreenStar = d_GreenStar data,
                  WaybackURL = d_WaybackURL data,
                  award_CreatedAt = 0,
                  award_UpdatedAt = 0\<rparr> s1, []))"

section \<open>Text and field parser\<close>

text \<open>
  Go strings are byte sequences, and so is \<open>string\<close> here. The functions of the
  standard library that read a string as UTF-8 text (\<^verbatim>\<open>strings.ToLower\<close>,
  \<^verbatim>\<open>strings.TrimSpace\<close>, the regular expressions) are modelled on the bytes with
  the decoder of \<^verbatim>\<open>unicode/utf8\<close>: a code point (a \<^verbatim>\<open>rune\<close>, an integer) is
  read from one to four bytes, and a byte that does not start a valid encoding is read as
  the code point U+FFFD of width one.
\<close>

definition isASCII :: "char \<Rightarrow> bool" where
  "isASCII c = ((of_char c :: nat) < 128)"

text \<open>The lower case of a byte below 128; the other bytes are left alone.\<close>

definition toLower :: "char \<Rightarrow> char" where
  "toLower c = (let n = (of_char c :: nat) in if 65 \<le> n \<and> n \<le> 90 then char_of (n + 32) else c)"

definition RuneError :: int where
  "RuneError = 0xFFFD"

text \<open>A byte as the decoder sees it after the first byte of a sequence: only the bytes
  from 128 on can continue a sequence.\<close>

definition hi_byte :: "char \<Rightarrow> int" where
  "hi_byte c = (if isASCII c then 0 else int (of_char c))"

definition cont :: "int \<Rightarrow> bool" where
  "cont b = (0x80 \<le> b \<and> b \<le> 0xBF)"

text \<open>\<^verbatim>\<open>utf8.DecodeRuneInString\<close>: the code point and its width, from the first byte
  and the (at most three) bytes after it. Over-long encodings, surrogates and code points
  above U+10FFFF are not valid.\<close>

definition decode_seq :: "int \<Rightarrow> int list \<Rightarrow> int \<times> nat" where
  "decode_seq x bs =
     (if x < 0x80 then (x, 1)
      else if 0xC2 \<le> x \<and> x \<le> 0xDF then
        (case bs of
           b1 # _ \<Rightarrow> if cont b1 then ((x - 0xC0) * 64 + (b1 - 0x80), 2) else (RuneError, 1)
         | _ \<Rightarrow> (RuneError, 1))
      else if 0xE0 \<le> x \<and> x \<le> 0xEF then
        (case bs of
           b1 # b2 # _ \<Rightarrow>
             if (if x = 0xE0 then 0xA0 else 0x80) \<le> b1 \<and> b1 \<le> (if x = 0xED then 0x9F else 0xBF) \<and>
                cont b2
             then ((x - 0xE0) * 4096 + (b1 - 0x80) * 64 + (b2 - 0x80), 3) else (RuneError, 1)
         | _ \<Rightarrow> (RuneError, 1))
      else if 0xF0 \<le> x \<and> x \<le> 0xF4 then
        (case bs of
           b1 # b2 # b3 # _ \<Rightarrow>
             if (if x = 0xF0 then 0x90 else 0x80) \<le> b1 \<and> b1 \<le> (if x = 0xF4 then 0x8F else 0xBF) \<and>
                cont b2 \<and> cont b3
             then ((x - 0xF0) * 262144 + (b1 - 0x80) * 4096 + (b2 - 0x80) * 64 + (b3 - 0x80), 4)
             else (RuneError, 1)
         | _ \<Rightarrow> (RuneError, 1))
      else (RuneError, 1))"

definition DecodeRune :: "string \<Rightarrow> int \<times> nat" where
  "DecodeRune s =
     (case s of
        [] \<Rightarrow> (RuneError, 0)
      | c # cs \<Rightarrow> decode_seq (int (of_char c)) (map hi_byte (take 3 cs)))"

text \<open>\<^verbatim>\<open>utf8.AppendRune\<close>: the encoding of a code point; a surrogate or a value
  above U+10FFFF is written as U+FFFD.\<close>

definition EncodeRune :: "int \<Rightarrow> string" where
  "EncodeRune r =
     (if r < 0x80 then [char_of r]
      else if r < 0x800 then [char_of (0xC0 + r div 64), char_of (0x80 + r mod 64)]
      else if 0x10FFFF < r \<or> (0xD800 \<le> r \<and> r \<le> 0xDFFF) then [CHR 0xEF, CHR 0xBF, CHR 0xBD]
      else if r < 0x10000 then
        [char_of (0xE0 + r div 4096), char_of (0x80 + (r div 64) mod 64), char_of (0x80 + r mod 64)]
      else [char_of (0xF0 + r div 262144), char_of (0x80 + (r div 4096) mod 64),
            char_of (0x80 + (r div 64) mod 64), char_of (0x80 + r mod 64)])"

text \<open>
  \<^verbatim>\<open>unicode.ToLower\<close>: the letters \<^verbatim>\<open>A\<close> to \<^verbatim>\<open>Z\<close> below 128 are moved by hand;
  above, the function reads the case table of the Unicode library. That table is not part
  of the program: it is the parameter \<open>tbl\<close> of the functions that lower-case text,
  \<open>tbl r\<close> being the lower case of the code point \<open>r\<close>.
\<close>

definition lowerRune :: "(int \<Rightarrow> int) \<Rightarrow> int \<Rightarrow> int" where
  "lowerRune tbl r = (if r < 128 then (if 65 \<le> r \<and> r \<le> 90 then r + 32 else r) else tbl r)"

text \<open>\<^verbatim>\<open>strings.Map(mapping, s)\<close>: each code point of \<open>s\<close> is replaced by the
  encoding of its image, an invalid byte by the encoding of the image of U+FFFD; a code
  point with a negative image is dropped. The counter is the number of bytes of the
  current code point still to skip.\<close>

fun map_runes :: "(int \<Rightarrow> int) \<Rightarrow> nat \<Rightarrow> string \<Rightarrow> string" where
  "map_runes mapping k [] = []"
| "map_runes mapping k (c # cs) =
     (if 0 < k then map_runes mapping (k - 1) cs
      else (case DecodeRune (c # cs) of
              (r, w) \<Rightarrow>
                (if mapping r < 0 then [] else EncodeRune (mapping r))
                @ map_runes mapping (w - 1) cs))"

definition strings_Map :: "(int \<Rightarrow> int) \<Rightarrow> string \<Rightarrow> string" where
  "strings_Map mapping s = map_runes mapping 0 s"

text \<open>\<^verbatim>\<open>strings.ToLower\<close>: a string of bytes below 128 is lower-cased byte by byte,
  any other string code point by code point.\<close>

definition ToLower :: "(int \<Rightarrow> int) \<Rightarrow> string \<Rightarrow> string" where
  "ToLower tbl s =
     (if list_all isASCII s then map toLower s else strings_Map (lowerRune tbl) s)"

text \<open>\<^verbatim>\<open>strings.Trim\<close> with a cutset of bytes below 128 works on bytes.\<close>

definition Trim :: "string \<Rightarrow> string \<Rightarrow> string" where
  "Trim s cutset =
     rev (dropWhile (\<lambda>c. c \<in> set cutset) (rev (dropWhile (\<lambda>c. c \<in> set cutset) s)))"

text \<open>\<^verbatim>\<open>unicode.IsSpace\<close>: the code points with the property White_Space.\<close>

definition IsSpace :: "int \<Rightarrow> bool" where
  "IsSpace r =
     ((9 \<le> r \<and> r \<le> 13) \<or> r = 0x20 \<or> r = 0x85 \<or> r = 0xA0 \<or> r = 0x1680 \<or>
      (0x2000 \<le> r \<and> r \<le> 0x200A) \<or> r = 0x2028 \<or> r = 0x2029 \<or> r = 0x202F \<or>
      r = 0x205F \<or> r = 0x3000)"

fun trim_left_space :: "nat \<Rightarrow> string \<Rightarrow> string" where
  "trim_left_space k [] = []"
| "trim_left_space k (c # cs) =
     (if 0 < k then trim_left_space (k - 1) cs
      else (case DecodeRune (c # cs) of
              (r, w) \<Rightarrow> if IsSpace r then trim_left_space (w - 1) cs else c # cs))"

definition RuneStart :: "char \<Rightarrow> bool" where
  "RuneStart c = (\<not> cont (int (of_char c)))"

definition whole_rune :: "string \<Rightarrow> int \<times> nat" where
  "whole_rune bs =
     (case DecodeRune bs of (r, w) \<Rightarrow> if w = length bs then (r, w) else (RuneError, 1))"

text \<open>\<^verbatim>\<open>utf8.DecodeLastRuneInString\<close>, on the reversed string: a last byte below
  128 is a code point; otherwise the decoder steps back over at most three bytes to the
  nearest byte that can start a sequence and decodes from there, and the result counts
  only if it ends with the string.\<close>

definition DecodeLastRune :: "string \<Rightarrow> int \<times> nat" where
  "DecodeLastRune rs =
     (case rs of
        [] \<Rightarrow> (RuneError, 0)
      | b0 # t \<Rightarrow>
          if isASCII b0 then (int (of_char b0), 1)
          else (case t of
                  [] \<Rightarrow> whole_rune [b0]
                | b1 # t1 \<Rightarrow>
                    if RuneStart b1 then whole_rune [b1, b0]
                    else (case t1 of
                            [] \<Rightarrow> whole_rune [b1, b0]
                          | b2 # t2 \<Rightarrow>
                              if RuneStart b2 then whole_rune [b2, b1, b0]
                              else (case t2 of
                                      [] \<Rightarrow> whole_rune [b2, b1, b0]
                                    | b3 # t3 \<Rightarrow>
                                        if RuneStart b3 then whole_rune [b3, b2, b1, b0]
                                        else (case t3 of
                                                [] \<Rightarrow> whole_rune [b3, b2, b1, b0]
                                              | b4 # _ \<Rightarrow> whole_rune [b4, b3, b2, b1, b0])))))"

fun trim_right_space :: "nat \<Rightarrow> string \<Rightarrow> string" where
  "trim_right_space k [] = []"
| "trim_right_space k (c # cs) =
     (if 0 < k then trim_right_space (k - 1) cs
      else (case DecodeLastRune (c # cs) of
              (r, w) \<Rightarrow> if IsSpace r then trim_right_space (w - 1) cs else c # cs))"

text \<open>\<^verbatim>\<open>strings.TrimSpace\<close>: the white-space code points are cut from the left, then
  from the right.\<close>

definition TrimSpace :: "string \<Rightarrow> string" where
  "TrimSpace s = rev (trim_right_space 0 (rev (trim_left_space 0 s)))"

definition HasPrefix :: "string \<Rightarrow> string \<Rightarrow> bool" where
  "HasPrefix s p = (take (length p) s = p)"

definition Contains :: "string \<Rightarrow> string \<Rightarrow> bool" where
  "Contains s p = list_ex (\<lambda>i. HasPrefix (drop i s) p) [0..<Suc (length s)]"

text \<open>\<^verbatim>\<open>strings.ReplaceAll(s, old, "")\<close> for a non-empty \<open>old\<close>: the occurrences are
  removed from left to right, without overlap. The counter is the number of bytes of the
  current occurrence still to drop.\<close>

fun remove_from :: "string \<Rightarrow> nat \<Rightarrow> string \<Rightarrow> string" where
  "remove_from old k [] = []"
| "remove_from old k (c # cs) =
     (if 0 < k then remove_from old (k - 1) cs
      else if HasPrefix (c # cs) old then remove_from old (length old - 1) cs
      else c # remove_from old 0 cs)"

definition RemoveAll :: "string \<Rightarrow> string \<Rightarrow> string" where
  "RemoveAll s old = remove_from old 0 s"

subsection \<open>Regular expressions of the parser\<close>

text \<open>
  The patterns of \<^verbatim>\<open>parser.go\<close> use literals, alternation, an optional group,
  \<^verbatim>\<open>.*?\<close>, \<^verbatim>\<open>\s*\<close> and the ASCII word boundary \<^verbatim>\<open>\b\<close>, all under
  \<^verbatim>\<open>(?i)\<close>. \<open>ends r s i\<close> lists the positions at which a match of \<open>r\<close>
  that starts at position \<open>i\<close> of \<open>s\<close> can end. \<^verbatim>\<open>MatchString\<close> asks for a match
  anywhere, so greedy and lazy repetition give the same answer.

  Under \<^verbatim>\<open>(?i)\<close> a letter of a pattern matches the code points of its case-folding
  orbit (\<^verbatim>\<open>unicode.SimpleFold\<close>): its lower and upper case, and besides them U+017F
  (small long s) for \<^verbatim>\<open>s\<close> and U+212A (Kelvin sign) for \<^verbatim>\<open>k\<close>, the only letters
  below 128 with a third member. The literals of the patterns are lower-case letters and
  digits. \<open>fold_width c rest\<close> is the number of bytes that the letter \<open>c\<close> matches at
  the head of \<open>rest\<close>. Every other element of the patterns reads bytes below 128 only, and
  \<^verbatim>\<open>.\<close> takes any code point but the line feed, so that positions are counted in bytes.
\<close>

datatype cls = AnyChar | Space

datatype regex =
    Eps
  | Lit string
  | WordB
  | Seq regex regex
  | Alt regex regex
  | Opt regex
  | StarC cls

definition in_cls :: "cls \<Rightarrow> char \<Rightarrow> bool" where
  "in_cls k c =
     (case k of
        AnyChar \<Rightarrow> c \<noteq> CHR 0x0A
      | Space \<Rightarrow> (let n = (of_char c :: nat) in n = 9 \<or> n = 10 \<or> n = 12 \<or> n = 13 \<or> n = 32))"

definition isWordChar :: "char \<Rightarrow> bool" where
  "isWordChar c =
     (let n = (of_char c :: nat)
      in (48 \<le> n \<and> n \<le> 57) \<or> (65 \<le> n \<and> n \<le> 90) \<or> (97 \<le> n \<and> n \<le> 122) \<or> n = 95)"

definition word_at :: "string \<Rightarrow> nat \<Rightarrow> bool" where
  "word_at s i = (i < length s \<and> isWordChar (s ! i))"

definition word_boundary :: "string \<Rightarrow> nat \<Rightarrow> bool" where
  "word_boundary s i = ((0 < i \<and> word_at s (i - 1)) \<noteq> word_at s i)"

definition fold_width :: "char \<Rightarrow> string \<Rightarrow> nat option" where
  "fold_width c rest =
     (if rest \<noteq> [] \<and> isASCII (hd rest) \<and> toLower (hd rest) = c then Some 1
      else if c = CHR ''s'' \<and> HasPrefix rest [CHR 0xC5, CHR 0xBF] then Some 2
      else if c = CHR ''k'' \<and> HasPrefix rest [CHR 0xE2, CHR 0x84, CHR 0xAA] then Some 3
      else None)"

fun lit_width :: "string \<Rightarrow> string \<Rightarrow> nat option" where
  "lit_width [] rest = Some 0"
| "lit_width (c # cs) rest =
     (case fold_width c rest of
        None \<Rightarrow> None
      | Some w \<Rightarrow> map_option (\<lambda>n. w + n) (lit_width cs (drop w rest)))"

fun ends :: "regex \<Rightarrow> string \<Rightarrow> nat \<Rightarrow> nat list" where
  "ends Eps s i = [i]"
| "ends (Lit l) s i = (case lit_width l (drop i s) of None \<Rightarrow> [] | Some w \<Rightarrow> [i + w])"
| "ends WordB s i = (if word_boundary s i then [i] else [])"
| "ends (Seq a b) s i = concat (map (ends b s) (ends a s i))"
| "ends (Alt a b) s i = ends a s i @ ends b s i"
| "ends (Opt a) s i = ends a s i @ [i]"
| "ends (StarC k) s i = map (\<lambda>n. i + n) [0..<Suc (length (takeWhile (in_cls k) (drop i s)))]"

definition MatchString :: "regex \<Rightarrow> string \<Rightarrow> bool" where
  "MatchString r s = list_ex (\<lambda>i. ends r s i \<noteq> []) [0..<Suc (length s)]"

definition seqs :: "regex list \<Rightarrow> regex" where
  "seqs rs = foldr Seq rs Eps"

definition stars_tail :: "string \<Rightarrow> regex list" where
  "stars_tail word = [WordB, StarC AnyChar, WordB, Lit word]"

text \<open>\<^verbatim>\<open>(?i)\b(three|3)\b.*?\bstars?\b\<close>\<close>

definition re3Stars :: regex where
  "re3Stars = seqs ([WordB, Alt (Lit ''three'') (Lit ''3'')] @ stars_tail ''star'' @ [Opt (Lit ''s''), WordB])"

text \<open>\<^verbatim>\<open>(?i)\b(two|2)\b.*?\bstars?\b\<close>\<close>

definition re2Stars :: regex where
  "re2Stars = seqs ([WordB, Alt (Lit ''two'') (Lit ''2'')] @ stars_tail ''star'' @ [Opt (Lit ''s''), WordB])"

text \<open>\<^verbatim>\<open>(?i)\b(one|1)\b.*?\bstar\b\<close>\<close>

definition re1Star :: regex where
  "re1Star = seqs ([WordB, Alt (Lit ''one'') (Lit ''1'')] @ stars_tail ''star'' @ [WordB])"

text \<open>\<^verbatim>\<open>(?i)\bbib\b\<close>\<close>

definition reBibGourmand :: regex where
  "reBibGourmand = seqs [WordB, Lit ''bib'', WordB]"

text \<open>\<^verbatim>\<open>(?i)\bselected\s*restaurants?\b|\bplate\b\<close>\<close>

definition reSelected :: regex where
  "reSelected =
     Alt (seqs [WordB, Lit ''selected'', StarC Space, Lit ''restaurant'', Opt (Lit ''s''), WordB])
         (seqs [WordB, Lit ''plate'', WordB])"

subsection \<open>ParseDistinction\<close>

text \<open>
  Modelled from the spec: the label constants of \<^verbatim>\<open>models/award.go\<close>, which is not
  among the sources. The spec names the closed set of distinctions; the strings are the
  ones the README and the front end's queries use.
\<close>

definition ThreeStars :: string where
  "ThreeStars = ''3 Stars''"

definition TwoStars :: string where
  "TwoStars = ''2 Stars''"

definition OneStar :: string where
  "OneStar = ''1 Star''"

definition BibGourmand :: string where
  "BibGourmand = ''Bib Gourmand''"

definition SelectedRestaurants :: string where
  "SelectedRestaurants = ''Selected Restaurants''"

text \<open>The second replacement removes the three bytes of the bullet U+2022.\<close>

definition decodeHTMLEntities :: "string \<Rightarrow> string" where
  "decodeHTMLEntities s = RemoveAll (RemoveAll s ''&bull;'') [CHR 0xE2, CHR 0x80, CHR 0xA2]"

definition normalise_distinction :: "(int \<Rightarrow> int) \<Rightarrow> string \<Rightarrow> string" where
  "normalise_distinction tbl distinction =
     TrimSpace (Trim (decodeHTMLEntities (ToLower tbl distinction)) '' .!?,;:-'')"

definition ParseDistinction :: "(int \<Rightarrow> int) \<Rightarrow> string \<Rightarrow> string" where
  "ParseDistinction tbl distinction =
     (let s = normalise_distinction tbl distinction
      in if MatchString re3Stars s then ThreeStars
         else if MatchString re2Stars s then TwoStars
         else if MatchString re1Star s then OneStar
         else if MatchString reBibGourmand s then BibGourmand
         else if MatchString reSelected s then SelectedRestaurants
         else SelectedRestaurants)"

subsection \<open>Dates of dataset files\<close>

text \<open>
  A \<^verbatim>\<open>time.Time\<close> is given by its civil fields in UTC and the nanoseconds since
  midnight; \<^verbatim>\<open>Before\<close> compares instants, which on these fields is the
  lexicographic order.
\<close>

datatype Time = Time (t_year: int) (t_month: nat) (t_day: nat) (t_nsec: nat)

definition Before :: "Time \<Rightarrow> Time \<Rightarrow> bool" where
  "Before a b =
     (t_year a < t_year b \<or>
      (t_year a = t_year b \<and>
       (t_month a < t_month b \<or>
        (t_month a = t_month b \<and>
         (t_day a < t_day b \<or> (t_day a = t_day b \<and> t_nsec a < t_nsec b))))))"

datatype error = NoDatePattern | DateOutOfRange | StatFailed | CSVUnreadable | CSVEmpty

definition isDigit :: "char \<Rightarrow> bool" where
  "isDigit c = (let n = (of_char c :: nat) in 48 \<le> n \<and> n \<le> 57)"

definition Atoi :: "string \<Rightarrow> nat" where
  "Atoi ds = fold (\<lambda>c n. n * 10 + ((of_char c :: nat) - 48)) ds 0"

text \<open>A match of \<^verbatim>\<open>(\d{4})-(\d{2})-(\d{2})\<close> at the head of the string, with its
  three groups.\<close>

fun date_at :: "string \<Rightarrow> (string \<times> string \<times> string) option" where
  "date_at (y1 # y2 # y3 # y4 # h1 # m1 # m2 # h2 # d1 # d2 # rest) =
     (if isDigit y1 \<and> isDigit y2 \<and> isDigit y3 \<and> isDigit y4 \<and> h1 = CHR ''-'' \<and>
         isDigit m1 \<and> isDigit m2 \<and> h2 = CHR ''-'' \<and> isDigit d1 \<and> isDigit d2
      then Some ([y1, y2, y3, y4], [m1, m2], [d1, d2]) else None)"
| "date_at s = None"

text \<open>\<^verbatim>\<open>FindStringSubmatch\<close>: the leftmost match.\<close>

fun find_date :: "string \<Rightarrow> (string \<times> string \<times> string) option" where
  "find_date [] = None"
| "find_date (c # cs) = (case date_at (c # cs) of Some m \<Rightarrow> Some m | None \<Rightarrow> find_date cs)"

definition isLeap :: "int \<Rightarrow> bool" where
  "isLeap y = (y mod 4 = 0 \<and> (y mod 100 \<noteq> 0 \<or> y mod 400 = 0))"

definition daysIn :: "nat \<Rightarrow> int \<Rightarrow> nat" where
  "daysIn m y =
     (if m = 2 then (if isLeap y then 29 else 28)
      else if m = 4 \<or> m = 6 \<or> m = 9 \<or> m = 11 then 30 else 31)"

text \<open>\<^verbatim>\<open>time.Parse("2006-01-02", ...)\<close> on four, two and two digits: the month and the
  day must be in range.\<close>

definition parse_date :: "string \<Rightarrow> string \<Rightarrow> string \<Rightarrow> error + Time" where
  "parse_date y m d =
     (let year = int (Atoi y); month = Atoi m; day = Atoi d
      in if 1 \<le> month \<and> month \<le> 12 \<and> 1 \<le> day \<and> day \<le> daysIn month year
         then Inr (Time year month day 0) else Inl DateOutOfRange)"

definition ParseDateFromFilename :: "string \<Rightarrow> error + Time" where
  "ParseDateFromFilename filename =
     (case find_date filename of
        Some (y, m, d) \<Rightarrow> parse_date y m d
      | None \<Rightarrow> Inl NoDatePattern)"

text \<open>\<^verbatim>\<open>filepath.Base\<close> with the separator \<^verbatim>\<open>/\<close>.\<close>

definition Base :: "string \<Rightarrow> string" where
  "Base path =
     (if path = [] then ''.''
      else (let stripped = rev (dropWhile (\<lambda>c. c = CHR ''/'') (rev path));
                lastElem = rev (takeWhile (\<lambda>c. c \<noteq> CHR ''/'') (rev stripped))
            in if lastElem = [] then ''/'' else lastElem))"

text \<open>A file of the dataset directory: what \<^verbatim>\<open>os.Stat\<close> and the CSV reader return for
  it. The file system maps a path to its file; \<open>None\<close> is a path \<^verbatim>\<open>os.Stat\<close> fails
  on. \<open>records = None\<close> is a file that cannot be opened or read as CSV.\<close>

record FileEntry =
  modTime :: Time
  records :: "string list list option"

type_synonym FS = "string \<Rightarrow> FileEntry option"

definition ParseDateFromFilenameWithFallback :: "FS \<Rightarrow> string \<Rightarrow> error + Time" where
  "ParseDateFromFilenameWithFallback fs filePath =
     (case ParseDateFromFilename (Base filePath) of
        Inr date \<Rightarrow> Inr date
      | Inl e \<Rightarrow>
          (case fs filePath of
             None \<Rightarrow> Inl StatFailed
           | Some fileInfo \<Rightarrow> Inr (modTime fileInfo)))"

section \<open>The dataset processor\<close>

text \<open>
  The processor imports dated CSV files. Of its statistics the model keeps the counters
  of the file being processed (\<^verbatim>\<open>FileStats\<close>); the run-wide counters repeat them
  and feed the report only. The functions that classify a row take the case table
  \<open>tbl\<close> of \<open>ParseDistinction\<close> and hand it down.
\<close>

record HistoricalRestaurant =
  h_Name :: string
  h_Address :: string
  h_Location :: string
  h_Price :: string
  h_Type :: string
  h_Longitude :: string
  h_Latitude :: string
  h_PhoneNumber :: string
  h_URL :: string
  h_WebsiteURL :: string
  h_Classification :: string

record FileStats =
  fs_FileName :: string
  fs_Year :: int
  fs_Date :: Time
  fs_RestaurantsFound :: nat
  fs_RestaurantsSkipped :: nat
  fs_NewRestaurants :: nat
  fs_ExistingRestaurants :: nat
  fs_AwardsAdded :: nat
  fs_AwardsSkipped :: nat
  fs_ProcessingErrors :: nat
  fs_RestaurantsRemovedFromGuide :: nat


text \<open>\<open>oneMonthAgo\<close> is \<^verbatim>\<open>time.Now().AddDate(0, -1, 0)\<close>, read by the caller.\<close>

definition isRecentDataset :: "Time \<Rightarrow> Time \<Rightarrow> bool" where
  "isRecentDataset oneMonthAgo fileDate = Before oneMonthAgo fileDate"

text \<open>\<^verbatim>\<open>SELECT in_guide FROM restaurants WHERE id = ?\<close> scanned into a \<^verbatim>\<open>*bool\<close>:
  \<open>None\<close> for NULL, and for no row.\<close>

definition in_guide_column :: "nat \<Rightarrow> Store \<Rightarrow> bool option" where
  "in_guide_column rid s =
     (case find (\<lambda>r. ID r = rid) (restaurants s) of None \<Rightarrow> None | Some r \<Rightarrow> InGuide r)"

text \<open>\<^verbatim>\<open>Model(&Restaurant{}).Where("id IN ?", ids).Update("in_guide", b)\<close>; GORM
  stamps \<^verbatim>\<open>updated_at\<close> on such an update.\<close>

definition update_in_guide :: "clock \<Rightarrow> nat list \<Rightarrow> bool \<Rightarrow> Store \<Rightarrow> Store" where
  "update_in_guide now ids b s =
     s\<lparr>restaurants :=
          map (\<lambda>r. if ID r \<in> set ids then r\<lparr>InGuide := Some b, UpdatedAt := now\<rparr> else r)
              (restaurants s)\<rparr>"

definition getCurrentGuideRestaurant ::
    "clock \<Rightarrow> string \<Rightarrow> string \<Rightarrow> Store \<Rightarrow> Restaurant option \<times> bool \<times> Store" where
  "getCurrentGuideRestaurant now websiteURL michelinURL s =
     (let byWebsite = (if websiteURL \<noteq> [] then FindRestaurantByWebsiteURL websiteURL s else None);
          found = (if byWebsite = None \<and> michelinURL \<noteq> []
                   then FindRestaurantByURL michelinURL s else byWebsite)
      in case found of
           None \<Rightarrow> (None, False, s)
         | Some restaurant \<Rightarrow>
             if inGuide_bool restaurant then (Some restaurant, True, s)
             else if in_guide_column (ID restaurant) s = None
                  then (Some (restaurant\<lparr>InGuide := Some True\<rparr>), True,
                        update_in_guide now [ID restaurant] True s)
                  else (Some restaurant, False, s))"

definition parseClassification :: "(int \<Rightarrow> int) \<Rightarrow> string \<Rightarrow> string" where
  "parseClassification tbl classification = ParseDistinction tbl classification"

definition parsePrice :: "string \<Rightarrow> string" where
  "parsePrice price = (if price = [] then ''$'' else price)"

definition dataset_award :: "(int \<Rightarrow> int) \<Rightarrow> nat \<Rightarrow> HistoricalRestaurant \<Rightarrow> int \<Rightarrow> RestaurantAward" where
  "dataset_award tbl rid restaurant year =
     \<lparr>award_ID = 0,
      RestaurantID = rid,
      Year = year,
      Distinction = parseClassification tbl (h_Classification restaurant),
      Price = parsePrice (h_Price restaurant),
      GreenStar = False,
      WaybackURL = [],
      award_CreatedAt = 0,
      award_UpdatedAt = 0\<rparr>"

definition addHistoricalAward ::
    "(int \<Rightarrow> int) \<Rightarrow> clock \<Rightarrow> Restaurant \<Rightarrow> HistoricalRestaurant \<Rightarrow> int \<Rightarrow> bool \<Rightarrow> bool \<Rightarrow>
     Store \<times> FileStats \<Rightarrow> Store \<times> FileStats" where
  "addHistoricalAward tbl now existingRestaurant restaurant year isRecent isCurrentlyInGuide st =
     (case st of (s, fileStats) \<Rightarrow>
        (case find (\<lambda>e. RestaurantID e = ID existingRestaurant \<and> Year e = year) (awards s) of
           Some existing \<Rightarrow>
             (s, fileStats\<lparr>fs_AwardsSkipped := fs_AwardsSkipped fileStats + 1\<rparr>)
         | None \<Rightarrow>
             (let s1 = (if \<not> inGuide_bool existingRestaurant \<and> isCurrentlyInGuide \<and>
                           in_guide_column (ID existingRestaurant) s = None
                        then update_in_guide now [ID existingRestaurant] True s
                        else s)
              in (SaveAward now (dataset_award tbl (ID existingRestaurant) restaurant year) s1,
                  fileStats\<lparr>fs_AwardsAdded := fs_AwardsAdded fileStats + 1\<rparr>))))"

definition createHistoricalRestaurant ::
    "(int \<Rightarrow> int) \<Rightarrow> clock \<Rightarrow> HistoricalRestaurant \<Rightarrow> int \<Rightarrow> bool \<Rightarrow> Store \<times> FileStats \<Rightarrow> Store \<times> FileStats" where
  "createHistoricalRestaurant tbl now restaurant year isRecent st =
     (case st of (s, fileStats) \<Rightarrow>
        (case FindRestaurantByURL (h_URL restaurant) s of
           Some existingRestaurant \<Rightarrow>
             addHistoricalAward tbl now existingRestaurant restaurant year isRecent
               (inGuide_bool existingRestaurant)
               (s, fileStats\<lparr>fs_ExistingRestaurants := fs_ExistingRestaurants fileStats + 1\<rparr>)
         | None \<Rightarrow>
             (let newRestaurant =
                    \<lparr>ID = fresh_id (map ID (restaurants s)),
                     URL = h_URL restaurant,
                     Name = h_Name restaurant,
                     Description = (if isRecent then ''Restaurant from current dataset''
                                    else ''Restaurant from historical dataset''),
                     Address = h_Address restaurant,
                     Location = h_Location restaurant,
                     Latitude = (if h_Latitude restaurant = [] then ''0.0'' else h_Latitude restaurant),
                     Longitude = (if h_Longitude restaurant = [] then ''0.0'' else h_Longitude restaurant),
                     Cuisine = (if h_Type restaurant = [] then ''Unknown'' else h_Type restaurant),
                     PhoneNumber = h_PhoneNumber restaurant,
                     FacilitiesAndServices = [],
                     WebsiteURL = h_WebsiteURL restaurant,
                     InGuide = Some isRecent,
                     CreatedAt = now,
                     UpdatedAt = now\<rparr>;
                  s1 = s\<lparr>restaurants := restaurants s @ [newRestaurant]\<rparr>
              in (SaveAward now (dataset_award tbl (ID newRestaurant) restaurant year) s1,
                  fileStats\<lparr>fs_AwardsAdded := fs_AwardsAdded fileStats + 1\<rparr>))))"

definition processHistoricalRestaurant ::
    "(int \<Rightarrow> int) \<Rightarrow> Time \<Rightarrow> clock \<Rightarrow> HistoricalRestaurant \<Rightarrow> int \<Rightarrow> Store \<times> FileStats \<Rightarrow> Store \<times> FileStats" where
  "processHistoricalRestaurant tbl oneMonthAgo now restaurant year st =
     (case st of (s, fileStats) \<Rightarrow>
        (let isRecent = isRecentDataset oneMonthAgo (fs_Date fileStats)
         in case getCurrentGuideRestaurant now (h_WebsiteURL restaurant) (h_URL restaurant) s of
              (Some currentRestaurant, isCurrentlyInGuide, s1) \<Rightarrow>
                addHistoricalAward tbl now currentRestaurant restaurant year isRecent isCurrentlyInGuide
                  (s1, fileStats\<lparr>fs_ExistingRestaurants := fs_ExistingRestaurants fileStats + 1\<rparr>)
            | (None, isCurrentlyInGuide, s1) \<Rightarrow>
                createHistoricalRestaurant tbl now restaurant year isRecent
                  (s1, fileStats\<lparr>fs_NewRestaurants := fs_NewRestaurants fileStats + 1\<rparr>)))"

text \<open>\<^verbatim>\<open>parseHistoricalCSV\<close>: the rows after the header, without the rows of fewer
  than eleven columns and the rows with an empty name or URL.\<close>

definition csv_row :: "string list \<Rightarrow> HistoricalRestaurant" where
  "csv_row record =
     \<lparr>h_Name = TrimSpace (record ! 0),
      h_Address = TrimSpace (record ! 1),
      h_Location = TrimSpace (record ! 2),
      h_Price = TrimSpace (record ! 3),
      h_Type = TrimSpace (record ! 4),
      h_Longitude = TrimSpace (record ! 5),
      h_Latitude = TrimSpace (record ! 6),
      h_PhoneNumber = TrimSpace (record ! 7),
      h_URL = TrimSpace (record ! 8),
      h_WebsiteURL = TrimSpace (record ! 9),
      h_Classification = TrimSpace (record ! 10)\<rparr>"

fun csv_rows :: "string list list \<Rightarrow> HistoricalRestaurant list" where
  "csv_rows [] = []"
| "csv_rows (record # rest) =
     (if length record < 11 then csv_rows rest
      else (let restaurant = csv_row record
            in if h_Name restaurant = [] \<or> h_URL restaurant = [] then csv_rows rest
               else restaurant # csv_rows rest))"

definition parseHistoricalCSV :: "FS \<Rightarrow> string \<Rightarrow> error + HistoricalRestaurant list" where
  "parseHistoricalCSV fs csvFile =
     (case fs csvFile of
        None \<Rightarrow> Inl CSVUnreadable
      | Some file \<Rightarrow>
          (case records file of
             None \<Rightarrow> Inl CSVUnreadable
           | Some [] \<Rightarrow> Inl CSVEmpty
           | Some (header # rest) \<Rightarrow> Inr (csv_rows rest)))"

text \<open>Phase 1 of \<^verbatim>\<open>processDatasetCSVFile\<close>: the loop over the rows to process. It
  carries the keys of \<^verbatim>\<open>restaurantsInCSV\<close>, the store and the file's counters.\<close>

fun process_rows ::
    "(int \<Rightarrow> int) \<Rightarrow> Time \<Rightarrow> clock \<Rightarrow> bool \<Rightarrow> int \<Rightarrow> HistoricalRestaurant list \<Rightarrow>
     string list \<times> Store \<times> FileStats \<Rightarrow> string list \<times> Store \<times> FileStats" where
  "process_rows tbl oneMonthAgo now isRecent year [] st = st"
| "process_rows tbl oneMonthAgo now isRecent year (restaurant # rest) (restaurantsInCSV, st) =
     (let k1 = (if isRecent \<and> h_WebsiteURL restaurant \<noteq> []
                then h_WebsiteURL restaurant # restaurantsInCSV else restaurantsInCSV);
          k2 = (if isRecent \<and> h_URL restaurant \<noteq> [] then h_URL restaurant # k1 else k1)
      in process_rows tbl oneMonthAgo now isRecent year rest
           (k2, processHistoricalRestaurant tbl oneMonthAgo now restaurant year st))"

definition inCSV :: "string list \<Rightarrow> Restaurant \<Rightarrow> bool" where
  "inCSV restaurantsInCSV restaurant =
     ((WebsiteURL restaurant \<noteq> [] \<and> WebsiteURL restaurant \<in> set restaurantsInCSV) \<or>
      (URL restaurant \<noteq> [] \<and> URL restaurant \<in> set restaurantsInCSV))"

definition updateMissingRestaurants ::
    "clock \<Rightarrow> string list \<Rightarrow> Store \<times> FileStats \<Rightarrow> Store \<times> FileStats" where
  "updateMissingRestaurants now restaurantsInCSV st =
     (case st of (s, fileStats) \<Rightarrow>
        (let currentGuideRestaurants = filter (\<lambda>r. InGuide r = Some True) (restaurants s);
             restaurantsToUpdate =
               map ID (filter (\<lambda>r. \<not> inCSV restaurantsInCSV r) currentGuideRestaurants)
         in if restaurantsToUpdate \<noteq> []
            then (update_in_guide now restaurantsToUpdate False s,
                  fileStats\<lparr>fs_RestaurantsRemovedFromGuide :=
                     fs_RestaurantsRemovedFromGuide fileStats + length restaurantsToUpdate\<rparr>)
            else (s, fileStats)))"

definition processDatasetCSVFile ::
    "(int \<Rightarrow> int) \<Rightarrow> Time \<Rightarrow> clock \<Rightarrow> FS \<Rightarrow> string \<Rightarrow> int \<Rightarrow> Store \<Rightarrow> error + Store \<times> FileStats" where
  "processDatasetCSVFile tbl oneMonthAgo now fs csvFile limit s =
     (case ParseDateFromFilenameWithFallback fs csvFile of
        Inl e \<Rightarrow> Inl e
      | Inr date \<Rightarrow>
          (let year = t_year date;
               isRecent = isRecentDataset oneMonthAgo date;
               fileStats =
                 \<lparr>fs_FileName = Base csvFile, fs_Year = year, fs_Date = date,
                  fs_RestaurantsFound = 0, fs_RestaurantsSkipped = 0, fs_NewRestaurants = 0,
                  fs_ExistingRestaurants = 0, fs_AwardsAdded = 0, fs_AwardsSkipped = 0,
                  fs_ProcessingErrors = 0, fs_RestaurantsRemovedFromGuide = 0\<rparr>
           in case parseHistoricalCSV fs csvFile of
                Inl e \<Rightarrow> Inl e
              | Inr parsed \<Rightarrow>
                  (let restaurantsToProcess =
                         (if 0 < limit \<and> limit < int (length parsed)
                          then take (nat limit) parsed else parsed);
                       (restaurantsInCSV, st1) =
                         process_rows tbl oneMonthAgo now isRecent year restaurantsToProcess
                           ([], s, fileStats\<lparr>fs_RestaurantsFound := length parsed\<rparr>)
                   in Inr (if isRecent then updateMissingRestaurants now restaurantsInCSV st1
                           else st1))))"

subsection \<open>Chronological order of the files\<close>


text \<open>\<^verbatim>\<open>sort.Slice\<close> orders a slice by its comparator and makes no promise about
  elements the comparator does not separate; the model sorts by insertion.\<close>

fun insert_by :: "('a \<Rightarrow> 'a \<Rightarrow> bool) \<Rightarrow> 'a \<Rightarrow> 'a list \<Rightarrow> 'a list" where
  "insert_by lt x [] = [x]"
| "insert_by lt x (y # ys) = (if lt y x then y # insert_by lt x ys else x # y # ys)"

definition sort_Slice :: "('a \<Rightarrow> 'a \<Rightarrow> bool) \<Rightarrow> 'a list \<Rightarrow> 'a list" where
  "sort_Slice lt xs = foldr (insert_by lt) xs []"





section \<open>The error handler of the crawler\<close>

text \<open>
  Go's \<^verbatim>\<open>int\<close> and \<^verbatim>\<open>time.Duration\<close> are 64-bit signed integers; \<open>wrap64\<close>
  is the value a 64-bit signed result wraps to. A duration counts nanoseconds.
\<close>

definition wrap64 :: "int \<Rightarrow> int" where
  "wrap64 x = (x + 2 ^ 63) mod 2 ^ 64 - 2 ^ 63"

definition Second :: int where
  "Second = 1000000000"

record Config =
  AllowedDomains :: "string list"
  CachePath :: string
  DatabasePath :: string
  Delay :: int
  MaxRetry :: int
  MaxURLs :: int
  MaxRestaurants :: int
  RandomDelay :: int
  ThreadCount :: int

definition DefaultConfig :: Config where
  "DefaultConfig =
     \<lparr>AllowedDomains = [''guide.michelin.com''],
      CachePath = ''cache/scrape'',
      DatabasePath = ''data/michelin.db'',
      Delay = 4 * Second,
      MaxRetry = 3,
      MaxURLs = 30000,
      MaxRestaurants = 0,
      RandomDelay = 4 * Second,
      ThreadCount = 1\<rparr>"

definition ConservativeConfig :: Config where
  "ConservativeConfig =
     \<lparr>AllowedDomains = [''guide.michelin.com''],
      CachePath = ''cache/scrape'',
      DatabasePath = ''data/michelin.db'',
      Delay = 8 * Second,
      MaxRetry = 3,
      MaxURLs = 30000,
      MaxRestaurants = 0,
      RandomDelay = 8 * Second,
      ThreadCount = 1\<rparr>"

text \<open>
  \<^verbatim>\<open>path.Clean\<close>: the shortest path that names the same file. The elements between
  the slashes are read from left to right: an empty element and \<^verbatim>\<open>.\<close> are dropped,
  \<^verbatim>\<open>..\<close> removes the element before it, is dropped at the root and is kept at the
  head of a path that is not rooted.
\<close>

fun split_slash :: "string \<Rightarrow> string list" where
  "split_slash [] = [[]]"
| "split_slash (c # cs) =
     (if c = CHR ''/'' then [] # split_slash cs
      else (case split_slash cs of
              [] \<Rightarrow> [[c]]
            | e # es \<Rightarrow> (c # e) # es))"

fun join_slash :: "string list \<Rightarrow> string" where
  "join_slash [] = []"
| "join_slash [e] = e"
| "join_slash (e # f # es) = e @ ''/'' @ join_slash (f # es)"

definition clean_step :: "bool \<Rightarrow> string list \<Rightarrow> string \<Rightarrow> string list" where
  "clean_step rooted out e =
     (if e = [] \<or> e = ''.'' then out
      else if e = ''..'' then
        (if out \<noteq> [] \<and> last out \<noteq> ''..'' then butlast out
         else if rooted then out
         else out @ [e])
      else out @ [e])"

definition Clean :: "string \<Rightarrow> string" where
  "Clean path =
     (if path = [] then ''.''
      else (let rooted = (hd path = CHR ''/'');
                out = foldl (clean_step rooted) [] (split_slash path)
            in if rooted then CHR ''/'' # join_slash out
               else if out = [] then ''.'' else join_slash out))"

text \<open>\<^verbatim>\<open>path.Join\<close>, and \<^verbatim>\<open>filepath.Join\<close> where the separator is \<^verbatim>\<open>/\<close>: the
  elements are joined with slashes, the empty ones before the first non-empty one are
  ignored, and the result is cleaned; it is empty when every element is.\<close>

fun join_elems :: "string \<Rightarrow> string list \<Rightarrow> string" where
  "join_elems buf [] = buf"
| "join_elems buf (e # es) =
     join_elems (if buf \<noteq> [] \<or> e \<noteq> []
                 then (if buf \<noteq> [] then buf @ ''/'' else buf) @ e else buf) es"

definition Join :: "string list \<Rightarrow> string" where
  "Join elem = (if concat elem = [] then [] else Clean (join_elems [] elem))"

text \<open>
  The response cache is the set of the cache files that exist. \<open>sha1hex\<close> is the
  hexadecimal SHA-1 digest of a string, a parameter of the model.
  \<^verbatim>\<open>os.Remove\<close> is taken to succeed on a file that exists.
\<close>

definition cache_filename :: "(string \<Rightarrow> string) \<Rightarrow> string \<Rightarrow> string \<Rightarrow> string" where
  "cache_filename sha1hex cachePath url =
     (let hash = sha1hex url;
          cacheDir = Join [cachePath, take 2 hash];
          filename = Join [cacheDir, hash]
      in filename)"

definition ClearCache :: "(string \<Rightarrow> string) \<Rightarrow> Config \<Rightarrow> string \<Rightarrow> string set \<Rightarrow> string set" where
  "ClearCache sha1hex cfg url cache = cache - {cache_filename sha1hex (CachePath cfg) url}"

text \<open>\<^verbatim>\<open>webclient.New\<close> hands the collector its cache directory,
  \<^verbatim>\<open>filepath.Join(cfg.CachePath)\<close>; the collector of the detail pages is a clone
  and has the same one.\<close>

definition collector_CacheDir :: "Config \<Rightarrow> string" where
  "collector_CacheDir cfg = Join [CachePath cfg]"

text \<open>
  The crawling library Colly is not among the sources. With a cache directory that is
  not empty it keeps the response to the \<^verbatim>\<open>GET\<close> request for a URL in one file and
  answers a later request for that URL from the file (\<^verbatim>\<open>Cache\<close> in its
  \<^verbatim>\<open>http_backend.go\<close>): the file is named by the digest of the URL, in the
  sub-directory named by the first two digits of the digest.
\<close>

definition colly_cache_file :: "(string \<Rightarrow> string) \<Rightarrow> string \<Rightarrow> string \<Rightarrow> string" where
  "colly_cache_file sha1hex cacheDir url =
     (let hash = sha1hex url; dir = Join [cacheDir, take 2 hash] in Join [dir, hash])"

text \<open>A failed response as the handler sees it: the status code, the URL of the request
  and the \<^verbatim>\<open>attempt\<close> entry of the request context (\<open>None\<close> when the entry is
  missing or is not an \<^verbatim>\<open>int\<close>).\<close>

record Response =
  StatusCode :: int
  RequestURL :: string
  CtxAttempt :: "int option"

text \<open>What one call of the handler does: the cache afterwards, the time slept, the
  \<^verbatim>\<open>attempt\<close> entry afterwards, whether \<^verbatim>\<open>Request.Retry\<close> was called, and the
  log entries.\<close>

record Handled =
  out_cache :: "string set"
  out_sleep :: "int option"
  out_attempt :: "int option"
  out_retry :: bool
  out_log :: log

definition createErrorHandler ::
    "(string \<Rightarrow> string) \<Rightarrow> Config \<Rightarrow> string set \<Rightarrow> Response \<Rightarrow> string \<Rightarrow> Handled" where
  "createErrorHandler sha1hex cfg cache r err =
     (let attempt = (case CtxAttempt r of Some a \<Rightarrow> a | None \<Rightarrow> 1)
      in if StatusCode r = 403
         then (if attempt < MaxRetry cfg
               then \<lparr>out_cache = ClearCache sha1hex cfg (RequestURL r) cache,
                     out_sleep = Some (wrap64 (wrap64 (wrap64 (attempt * attempt) * 8) * Second)),
                     out_attempt = Some (wrap64 (attempt + 1)),
                     out_retry = True,
                     out_log = [(Warn, ''request forbidden (403)''),
                                (Warn, ''403 forbidden error, retrying with fresh headers'')]\<rparr>
               else \<lparr>out_cache = cache,
                     out_sleep = None,
                     out_attempt = CtxAttempt r,
                     out_retry = False,
                     out_log = [(Warn, ''request forbidden (403)''),
                                (Error, ''request forbidden - website blocking detected'')]\<rparr>)
         else if Contains err ''already visited''
         then \<lparr>out_cache = cache,
               out_sleep = None,
               out_attempt = CtxAttempt r,
               out_retry = False,
               out_log = [(Debug, ''request already visited, skipping retry'')]\<rparr>
         else if attempt < MaxRetry cfg
         then \<lparr>out_cache = ClearCache sha1hex cfg (RequestURL r) cache,
               out_sleep = Some (wrap64 (attempt * Delay cfg)),
               out_attempt = Some (wrap64 (attempt + 1)),
               out_retry = True,
               out_log = [(Warn, ''request failed, retrying'')]\<rparr>
         else \<lparr>out_cache = cache,
               out_sleep = None,
               out_attempt = CtxAttempt r,
               out_retry = False,
               out_log = [(Error, ''request failed, giving up'')]\<rparr>)"

text \<open>
  A URL that keeps failing: Colly calls the handler again after each
  \<^verbatim>\<open>Request.Retry\<close>, with the context the handler left. \<open>failures\<close> lists the
  status code and the error of each failed try; the result lists what the handler did on
  each call it received, and ends with the call that did not retry.
\<close>

fun handle_failures ::
    "(string \<Rightarrow> string) \<Rightarrow> Config \<Rightarrow> string \<Rightarrow> (int \<times> string) list \<Rightarrow>
     string set \<Rightarrow> int option \<Rightarrow> Handled list" where
  "handle_failures sha1hex cfg url [] cache ctx = []"
| "handle_failures sha1hex cfg url ((status, err) # rest) cache ctx =
     (let h = createErrorHandler sha1hex cfg cache
                \<lparr>StatusCode = status, RequestURL = url, CtxAttempt = ctx\<rparr> err
      in if out_retry h
         then h # handle_failures sha1hex cfg url rest (out_cache h) (out_attempt h)
         else [h])"

section \<open>Constraints of the schema and notions of the specification\<close>

text \<open>The primary key of \<^verbatim>\<open>restaurants\<close> and the uniqueness constraint of
  \<^verbatim>\<open>restaurant_awards\<close> on (restaurant, year), which the \<^verbatim>\<open>ON CONFLICT\<close>
  clause of \<open>SaveAward\<close> relies on.\<close>

definition ids_unique :: "Store \<Rightarrow> bool" where
  "ids_unique s = distinct (map ID (restaurants s))"

definition slot :: "RestaurantAward \<Rightarrow> nat \<times> int" where
  "slot e = (RestaurantID e, Year e)"

definition awards_unique :: "Store \<Rightarrow> bool" where
  "awards_unique s = distinct (map slot (awards s))"

text \<open>The value columns of an award that an accepted fact overwrites.\<close>

definition overwritten :: "clock \<Rightarrow> RestaurantAward \<Rightarrow> RestaurantAward \<Rightarrow> RestaurantAward" where
  "overwritten now award e =
     e\<lparr>Distinction := Distinction award, Price := Price award, GreenStar := GreenStar award,
       WaybackURL := WaybackURL award, award_UpdatedAt := now\<rparr>"

text \<open>The store without the \<^verbatim>\<open>updated_at\<close> stamps of its awards.\<close>

definition without_updated_at :: "Store \<Rightarrow> Store" where
  "without_updated_at s = s\<lparr>awards := map (\<lambda>e. e\<lparr>award_UpdatedAt := 0\<rparr>) (awards s)\<rparr>"

text \<open>A restaurant is listed in the rows of a file when its website URL or its guide
  URL, if not empty, is among the website and guide URLs of the rows.\<close>

definition listed_in :: "HistoricalRestaurant list \<Rightarrow> Restaurant \<Rightarrow> bool" where
  "listed_in rows r =
     list_ex (\<lambda>row.
        (WebsiteURL r \<noteq> [] \<and> (WebsiteURL r = h_WebsiteURL row \<or> WebsiteURL r = h_URL row)) \<or>
        (URL r \<noteq> [] \<and> (URL r = h_WebsiteURL row \<or> URL r = h_URL row))) rows"

text \<open>The rows of a file that \<^verbatim>\<open>processDatasetCSVFile\<close> processes under a limit.\<close>

definition rows_processed :: "int \<Rightarrow> HistoricalRestaurant list \<Rightarrow> HistoricalRestaurant list" where
  "rows_processed limit rows =
     (if 0 < limit \<and> limit < int (length rows) then take (nat limit) rows else rows)"

text \<open>The value of \<^verbatim>\<open>inGuide\<close> that \<open>UpsertRestaurantWithAward\<close> writes.\<close>

definition inGuide_of :: "RestaurantData \<Rightarrow> bool" where
  "inGuide_of data = (case d_InGuide data of Some b \<Rightarrow> b | None \<Rightarrow> True)"




text \<open>The elements of a cleaned path: none is empty, is \<^verbatim>\<open>.\<close> or holds a slash,
  and \<^verbatim>\<open>..\<close> stands at the head only, of a path that is not rooted.\<close>

definition plain :: "string \<Rightarrow> bool" where
  "plain e = (e \<noteq> [] \<and> e \<noteq> ''.'' \<and> CHR ''/'' \<notin> set e)"

fun dots_first :: "string list \<Rightarrow> bool" where
  "dots_first [] = True"
| "dots_first (e # es) = (if e = ''..'' then dots_first es else ''..'' \<notin> set es)"

definition shaped :: "bool \<Rightarrow> string list \<Rightarrow> bool" where
  "shaped rooted out =
     ((\<forall>e \<in> set out. plain e) \<and> dots_first out \<and> (rooted \<longrightarrow> ''..'' \<notin> set out))"

text \<open>The repair of a NULL \<^verbatim>\<open>in_guide\<close>, and what one step of the dataset processor
  keeps of a store: the primary key stays unique, every restaurant row stays as it was or
  has its NULL \<^verbatim>\<open>in_guide\<close> repaired, the awards of the stored restaurants stay, and
  no identifier disappears.\<close>

definition fixed_null :: "clock \<Rightarrow> Restaurant \<Rightarrow> Restaurant" where
  "fixed_null now r = r\<lparr>InGuide := Some True, UpdatedAt := now\<rparr>"

definition preserves :: "clock \<Rightarrow> Store \<Rightarrow> Store \<Rightarrow> bool" where
  "preserves now s s' =
     (ids_unique s' \<and>
      (\<forall>r \<in> set (restaurants s).
          r \<in> set (restaurants s') \<or>
          (InGuide r = None \<and> fixed_null now r \<in> set (restaurants s'))) \<and>
      (\<forall>a \<in> set (awards s).
          RestaurantID a \<in> ID ` set (restaurants s) \<longrightarrow> a \<in> set (awards s')) \<and>
      ID ` set (restaurants s) \<subseteq> ID ` set (restaurants s'))"

text \<open>The keys \<^verbatim>\<open>restaurantsInCSV\<close> holds after the rows of a recent file.\<close>

definition csv_keys :: "HistoricalRestaurant list \<Rightarrow> string set" where
  "csv_keys rows =
     {k. k \<noteq> [] \<and> (\<exists>row \<in> set rows. k = h_WebsiteURL row \<or> k = h_URL row)}"

section \<open>Example data\<close>

definition demo_restaurant :: Restaurant where
  "demo_restaurant =
     \<lparr>ID = 1, URL = ''https://guide.michelin.com/en/restaurant/x'', Name = ''X'',
      Description = ''d'', Address = ''a'', Location = ''l'', Latitude = ''1.0'',
      Longitude = ''2.0'', Cuisine = ''c'', PhoneNumber = [], FacilitiesAndServices = [],
      WebsiteURL = ''https://x.example'', InGuide = Some True, CreatedAt = 10, UpdatedAt = 10\<rparr>"

definition scrape_award :: RestaurantAward where
  "scrape_award =
     \<lparr>award_ID = 1, RestaurantID = 1, Year = 2024, Distinction = ''1 Star'', Price = ''$$'',
      GreenStar = False, WaybackURL = [], award_CreatedAt = 10, award_UpdatedAt = 10\<rparr>"

definition backfill_award :: RestaurantAward where
  "backfill_award =
     \<lparr>award_ID = 1, RestaurantID = 1, Year = 2019, Distinction = ''1 Star'', Price = ''$$'',
      GreenStar = False, WaybackURL = ''https://web.archive.org/web/2019/x'',
      award_CreatedAt = 10, award_UpdatedAt = 10\<rparr>"

definition backfill_fact :: "int \<Rightarrow> RestaurantAward" where
  "backfill_fact year =
     \<lparr>award_ID = 0, RestaurantID = 1, Year = year, Distinction = ''Bib Gourmand'', Price = ''$'',
      GreenStar = True, WaybackURL = ''https://web.archive.org/web/2020/x'',
      award_CreatedAt = 0, award_UpdatedAt = 0\<rparr>"

definition scrape_store :: Store where
  "scrape_store = \<lparr>restaurants = [demo_restaurant], awards = [scrape_award]\<rparr>"

definition backfill_store :: Store where
  "backfill_store = \<lparr>restaurants = [demo_restaurant], awards = [backfill_award]\<rparr>"

definition scrape_fact :: "int \<Rightarrow> RestaurantAward" where
  "scrape_fact year =
     \<lparr>award_ID = 0, RestaurantID = 1, Year = year, Distinction = ''2 Stars'', Price = ''$$$'',
      GreenStar = False, WaybackURL = [], award_CreatedAt = 0, award_UpdatedAt = 0\<rparr>"

definition empty_store :: Store where
  "empty_store = \<lparr>restaurants = [demo_restaurant], awards = []\<rparr>"

definition dataset_row :: HistoricalRestaurant where
  "dataset_row =
     \<lparr>h_Name = ''X'', h_Address = ''a'', h_Location = ''l'', h_Price = ''$$$'', h_Type = ''c'',
      h_Longitude = ''2.0'', h_Latitude = ''1.0'', h_PhoneNumber = [],
      h_URL = ''https://guide.michelin.com/en/restaurant/x'', h_WebsiteURL = ''https://x.example'',
      h_Classification = ''2 Stars''\<rparr>"

definition demo_stats :: FileStats where
  "demo_stats =
     \<lparr>fs_FileName = ''2019-06-01_guide.csv'', fs_Year = 2019, fs_Date = Time 2019 6 1 0,
      fs_RestaurantsFound = 1, fs_RestaurantsSkipped = 0, fs_NewRestaurants = 0,
      fs_ExistingRestaurants = 0, fs_AwardsAdded = 0, fs_AwardsSkipped = 0,
      fs_ProcessingErrors = 0, fs_RestaurantsRemovedFromGuide = 0\<rparr>"

definition live_data :: "bool option \<Rightarrow> int \<Rightarrow> RestaurantData" where
  "live_data inGuide year =
     \<lparr>d_URL = ''https://guide.michelin.com/en/restaurant/x'', d_Name = ''X new'',
      d_Description = ''d new'', d_Address = ''a new'', d_Location = ''l new'',
      d_Latitude = ''3.0'', d_Longitude = ''4.0'', d_Cuisine = ''c new'',
      d_FacilitiesAndServices = ''f new'', d_PhoneNumber = ''+33123456789'',
      d_WebsiteURL = ''https://x-new.example'', d_InGuide = inGuide, d_Year = year,
      d_Distinction = ''2 Stars'', d_Price = ''$$$'', d_GreenStar = True, d_WaybackURL = []\<rparr>"

definition store_with_InGuide :: "bool option \<Rightarrow> Store" where
  "store_with_InGuide b = \<lparr>restaurants = [demo_restaurant\<lparr>InGuide := b\<rparr>], awards = [scrape_award]\<rparr>"

text \<open>Any function to forty hexadecimal digits serves as the digest in an example.\<close>

definition stand_in_digest :: "string \<Rightarrow> string" where
  "stand_in_digest url =
     (if url = ''https://guide.michelin.com/en/restaurant/x''
      then ''0a4d55a8d778e5022fab701977c5d840bbc486d0''
      else ''5baa61e4c9b93f3f0682250b6cf8331b7ee68fd8'')"

definition cache_with_two_files :: "string set" where
  "cache_with_two_files =
     {''cache/scrape/0a/0a4d55a8d778e5022fab701977c5d840bbc486d0'',
      ''cache/scrape/5b/5baa61e4c9b93f3f0682250b6cf8331b7ee68fd8''}"

definition forbidden_response :: "int \<Rightarrow> Response" where
  "forbidden_response attempt =
     \<lparr>StatusCode = 403, RequestURL = ''https://guide.michelin.com/en/restaurant/x'',
      CtxAttempt = Some attempt\<rparr>"

definition header :: "string list" where
  "header = [''Name'', ''Address'', ''Location'', ''Price'', ''Type'', ''Longitude'', ''Latitude'',
             ''PhoneNumber'', ''Url'', ''WebsiteUrl'', ''Classification'']"




definition restaurant_A :: Restaurant where
  "restaurant_A =
     \<lparr>ID = 1, URL = ''https://guide.michelin.com/en/restaurant/a'', Name = ''A'',
      Description = ''d'', Address = ''addr A'', Location = ''Paris'', Latitude = ''48.8'',
      Longitude = ''2.3'', Cuisine = ''French'', PhoneNumber = [], FacilitiesAndServices = [],
      WebsiteURL = ''https://a.example'', InGuide = Some True, CreatedAt = 10, UpdatedAt = 10\<rparr>"

definition restaurant_C :: Restaurant where
  "restaurant_C =
     \<lparr>ID = 2, URL = ''https://guide.michelin.com/en/restaurant/c'', Name = ''C'',
      Description = ''d'', Address = ''addr C'', Location = ''Lyon'', Latitude = ''45.7'',
      Longitude = ''4.8'', Cuisine = ''French'', PhoneNumber = [], FacilitiesAndServices = [],
      WebsiteURL = [], InGuide = Some True, CreatedAt = 10, UpdatedAt = 10\<rparr>"

definition guide_store :: Store where
  "guide_store = \<lparr>restaurants = [restaurant_A, restaurant_C], awards = []\<rparr>"

definition recent_files :: FS where
  "recent_files path =
     (if path = ''data/2025-04-01_guide.csv''
      then Some \<lparr>modTime = Time 2025 4 2 0,
                 records = Some
                   [header,
                    [''A'', ''addr A'', ''Paris'', ''$$'', ''French'', ''2.3'', ''48.8'', [],
                     ''https://guide.michelin.com/en/restaurant/a'', ''https://a.example'', ''1 Star''],
                    [''B'', ''addr B'', ''Nice'', [], ''Seafood'', ''7.2'', ''43.7'', [],
                     ''https://guide.michelin.com/en/restaurant/b'', [], ''Bib Gourmand'']]\<rparr>
      else None)"

definition restaurant_N :: Restaurant where
  "restaurant_N =
     \<lparr>ID = 1, URL = ''https://guide.michelin.com/en/restaurant/n'', Name = ''N'',
      Description = ''d'', Address = ''addr N'', Location = ''Rome'', Latitude = ''41.9'',
      Longitude = ''12.5'', Cuisine = ''Italian'', PhoneNumber = [], FacilitiesAndServices = [],
      WebsiteURL = [], InGuide = None, CreatedAt = 10, UpdatedAt = 10\<rparr>"

definition restaurant_H :: Restaurant where
  "restaurant_H =
     \<lparr>ID = 2, URL = ''https://guide.michelin.com/en/restaurant/h'', Name = ''H'',
      Description = ''d'', Address = ''addr H'', Location = ''Oslo'', Latitude = ''59.9'',
      Longitude = ''10.7'', Cuisine = ''Nordic'', PhoneNumber = [], FacilitiesAndServices = [],
      WebsiteURL = [], InGuide = Some False, CreatedAt = 10, UpdatedAt = 10\<rparr>"

definition old_store :: Store where
  "old_store = \<lparr>restaurants = [restaurant_N, restaurant_H], awards = []\<rparr>"

definition historical_files :: FS where
  "historical_files path =
     (if path = ''data/2019-06-01_guide.csv''
      then Some \<lparr>modTime = Time 2025 4 2 0,
                 records = Some
                   [header,
                    [''N'', ''addr N'', ''Rome'', ''$$$'', ''Italian'', ''12.5'', ''41.9'', [],
                     ''https://guide.michelin.com/en/restaurant/n'', [], ''2 Stars''],
                    [''H'', ''addr H'', ''Oslo'', ''$$'', ''Nordic'', ''10.7'', ''59.9'', [],
                     ''https://guide.michelin.com/en/restaurant/h'', [], ''Selected Restaurants'']]\<rparr>
      else None)"

definition recent_rows :: "HistoricalRestaurant list" where
  "recent_rows =
     [\<lparr>h_Name = ''A'', h_Address = ''addr A'', h_Location = ''Paris'', h_Price = ''$$'',
       h_Type = ''French'', h_Longitude = ''2.3'', h_Latitude = ''48.8'', h_PhoneNumber = [],
       h_URL = ''https://guide.michelin.com/en/restaurant/a'',
       h_WebsiteURL = ''https://a.example'', h_Classification = ''1 Star''\<rparr>,
      \<lparr>h_Name = ''B'', h_Address = ''addr B'', h_Location = ''Nice'', h_Price = [],
       h_Type = ''Seafood'', h_Longitude = ''7.2'', h_Latitude = ''43.7'', h_PhoneNumber = [],
       h_URL = ''https://guide.michelin.com/en/restaurant/b'',
       h_WebsiteURL = [], h_Classification = ''Bib Gourmand''\<rparr>]"

definition restaurant_B :: Restaurant where
  "restaurant_B =
     \<lparr>ID = 3, URL = ''https://guide.michelin.com/en/restaurant/b'', Name = ''B'',
      Description = ''Restaurant from current dataset'', Address = ''addr B'', Location = ''Nice'',
      Latitude = ''43.7'', Longitude = ''7.2'', Cuisine = ''Seafood'', PhoneNumber = [],
      FacilitiesAndServices = [], WebsiteURL = [], InGuide = Some True,
      CreatedAt = 50, UpdatedAt = 50\<rparr>"

definition dataset_award_row :: "nat \<Rightarrow> nat \<Rightarrow> int \<Rightarrow> string \<Rightarrow> string \<Rightarrow> RestaurantAward" where
  "dataset_award_row aid rid year distinction price =
     \<lparr>award_ID = aid, RestaurantID = rid, Year = year, Distinction = distinction, Price = price,
      GreenStar = False, WaybackURL = [], award_CreatedAt = 50, award_UpdatedAt = 50\<rparr>"

definition guide_store_after :: Store where
  "guide_store_after =
     \<lparr>restaurants = [restaurant_A, restaurant_C\<lparr>InGuide := Some False, UpdatedAt := 50\<rparr>, restaurant_B],
      awards = [dataset_award_row 1 1 2025 ''1 Star'' ''$$'',
                dataset_award_row 2 3 2025 ''Bib Gourmand'' ''$'']\<rparr>"

definition recent_stats_after :: FileStats where
  "recent_stats_after =
     \<lparr>fs_FileName = ''2025-04-01_guide.csv'', fs_Year = 2025, fs_Date = Time 2025 4 1 0,
      fs_RestaurantsFound = 2, fs_RestaurantsSkipped = 0, fs_NewRestaurants = 1,
      fs_ExistingRestaurants = 1, fs_AwardsAdded = 2, fs_AwardsSkipped = 0,
      fs_ProcessingErrors = 0, fs_RestaurantsRemovedFromGuide = 1\<rparr>"

text \<open>The file of 2025-04-01 with restaurant B listed first, and what a run with the
  limit 1 leaves.\<close>

definition recent_files_B_first :: FS where
  "recent_files_B_first path =
     (if path = ''data/2025-04-01_guide.csv''
      then Some \<lparr>modTime = Time 2025 4 2 0,
                 records = Some
                   [header,
                    [''B'', ''addr B'', ''Nice'', [], ''Seafood'', ''7.2'', ''43.7'', [],
                     ''https://guide.michelin.com/en/restaurant/b'', [], ''Bib Gourmand''],
                    [''A'', ''addr A'', ''Paris'', ''$$'', ''French'', ''2.3'', ''48.8'', [],
                     ''https://guide.michelin.com/en/restaurant/a'', ''https://a.example'', ''1 Star'']]\<rparr>
      else None)"

definition guide_store_limited :: Store where
  "guide_store_limited =
     \<lparr>restaurants = [restaurant_A\<lparr>InGuide := Some False, UpdatedAt := 50\<rparr>,
                     restaurant_C\<lparr>InGuide := Some False, UpdatedAt := 50\<rparr>,
                     restaurant_B],
      awards = [dataset_award_row 1 3 2025 ''Bib Gourmand'' ''$'']\<rparr>"

definition limited_stats_after :: FileStats where
  "limited_stats_after =
     \<lparr>fs_FileName = ''2025-04-01_guide.csv'', fs_Year = 2025, fs_Date = Time 2025 4 1 0,
      fs_RestaurantsFound = 2, fs_RestaurantsSkipped = 0, fs_NewRestaurants = 1,
      fs_ExistingRestaurants = 0, fs_AwardsAdded = 1, fs_AwardsSkipped = 0,
      fs_ProcessingErrors = 0, fs_RestaurantsRemovedFromGuide = 2\<rparr>"

definition old_store_after :: Store where
  "old_store_after =
     \<lparr>restaurants = [restaurant_N\<lparr>InGuide := Some True, UpdatedAt := 50\<rparr>, restaurant_H],
      awards = [dataset_award_row 1 1 2019 ''2 Stars'' ''$$$'',
                dataset_award_row 2 2 2019 ''Selected Restaurants'' ''$$'']\<rparr>"

definition historical_stats_after :: FileStats where
  "historical_stats_after =
     \<lparr>fs_FileName = ''2019-06-01_guide.csv'', fs_Year = 2019, fs_Date = Time 2019 6 1 0,
      fs_RestaurantsFound = 2, fs_RestaurantsSkipped = 0, fs_NewRestaurants = 0,
      fs_ExistingRestaurants = 2, fs_AwardsAdded = 2, fs_AwardsSkipped = 0,
      fs_ProcessingErrors = 0, fs_RestaurantsRemovedFromGuide = 0\<rparr>"

text \<open>The entries of the Unicode case table that the examples read: the lower case of
  U+0130 is \<^verbatim>\<open>i\<close> and that of the Kelvin sign U+212A is \<^verbatim>\<open>k\<close>; the other code
  points above 127 of the examples, among them the small long s U+017F and the bullet
  U+2022, are their own lower case.\<close>

definition example_case_table :: "int \<Rightarrow> int" where
  "example_case_table r = (if r = 0x130 then 0x69 else if r = 0x212A then 0x6B else r)"



text \<open>\<^verbatim>\<open>3 x\<close>, the small long s U+017F, \<^verbatim>\<open>tar\<close>.\<close>

definition long_s_star :: string where
  "long_s_star = ''3 x'' @ [CHR 0xC5, CHR 0xBF] @ ''tar''"

section \<open>Properties of the merge policy\<close>

lemma find_unique_key:
  assumes "distinct (map f xs)" and "e \<in> set xs" and "\<And>x. P x \<longleftrightarrow> f x = f e"
  shows "find P xs = Some e"
  using assms(1,2)
proof (induction xs)
  case Nil
  then show ?case by simp
next
  case (Cons x xs)
  show ?case
  proof (cases "x = e")
    case True
    then show ?thesis using assms(3) by simp
  next
    case False
    with Cons.prems have mem: "e \<in> set xs" by simp
    from Cons.prems mem have "f x \<noteq> f e" by (auto simp: image_iff)
    with Cons mem show ?thesis using assms(3) by simp
  qed
qed

lemma same_slot_iff: "same_slot award x \<longleftrightarrow> slot x = slot award"
  by (auto simp: same_slot_def slot_def)

lemma find_slot_row:
  assumes "awards_unique s" and "e \<in> set (awards s)" and "same_slot award e"
  shows "find (same_slot award) (awards s) = Some e"
proof (rule find_unique_key [where f = slot])
  show "distinct (map slot (awards s))" using assms(1) by (simp add: awards_unique_def)
  show "e \<in> set (awards s)" by fact
  show "\<And>x. same_slot award x \<longleftrightarrow> slot x = slot e"
    using assms(3) by (simp add: same_slot_iff)
qed

text \<open>
  C1. Anti-regression: when the award row of a (restaurant, year) has an empty archive
  reference (scrape provenance) and the incoming award of that restaurant and year
  carries a non-empty one (backfill), \<open>SaveAward\<close> returns the store as it was; the
  stored distinction, price and green-star flag of the row are therefore unchanged.
\<close>

theorem SaveAward_scrape_wins:
  assumes "awards_unique s"
    and "e \<in> set (awards s)"
    and "RestaurantID e = RestaurantID award" and "Year e = Year award"
    and "WaybackURL e = []"
    and "WaybackURL award \<noteq> []"
  shows "SaveAward now award s = s"
proof -
  have "same_slot award e" using assms(3,4) by (simp add: same_slot_def)
  then have "find (same_slot award) (awards s) = Some e"
    using assms(1,2) by (rule find_slot_row [rotated 2])
  then show ?thesis using assms(5,6) by (simp add: SaveAward_def)
qed

theorem SaveAward_scrape_wins_witness:
  "awards_unique scrape_store \<and> scrape_award \<in> set (awards scrape_store) \<and>
   RestaurantID scrape_award = RestaurantID (backfill_fact 2024) \<and>
   Year scrape_award = Year (backfill_fact 2024) \<and>
   WaybackURL scrape_award = [] \<and> WaybackURL (backfill_fact 2024) \<noteq> [] \<and>
   SaveAward 20 (backfill_fact 2024) scrape_store = scrape_store \<and>
   map Distinction (awards (SaveAward 20 (backfill_fact 2024) scrape_store)) = [''1 Star'']"
proof -
  have h1: "awards_unique scrape_store"
    by (simp add: awards_unique_def scrape_store_def)
  have h2: "scrape_award \<in> set (awards scrape_store)"
    by (simp add: scrape_store_def)
  have h3: "RestaurantID scrape_award = RestaurantID (backfill_fact 2024)"
    by (simp add: scrape_award_def backfill_fact_def)
  have h4: "Year scrape_award = Year (backfill_fact 2024)"
    by (simp add: scrape_award_def backfill_fact_def)
  have h5: "WaybackURL scrape_award = []"
    by (simp add: scrape_award_def)
  have h6: "WaybackURL (backfill_fact 2024) \<noteq> []"
    by (simp add: backfill_fact_def)
  have unchanged: "SaveAward 20 (backfill_fact 2024) scrape_store = scrape_store"
    using SaveAward_scrape_wins [OF h1 h2 h3 h4 h5 h6] .
  have "map Distinction (awards scrape_store) = [''1 Star'']"
    by (simp add: scrape_store_def scrape_award_def)
  with h1 h2 h3 h4 h5 h6 unchanged show ?thesis by simp
qed

lemma find_None_list_ex: "find P xs = None \<longleftrightarrow> \<not> list_ex P xs"
  by (auto simp: find_None_iff list_ex_iff)

lemma find_Some_list_ex: "find P xs = Some x \<Longrightarrow> list_ex P xs"
  by (auto simp: find_Some_iff list_ex_iff)

lemma same_slot_overwritten [simp]: "same_slot a (overwritten t b e) = same_slot a e"
  by (simp add: same_slot_def overwritten_def)

lemma upsert_award_present:
  "list_ex (same_slot award) rows \<Longrightarrow>
   upsert_award now award rows = map (\<lambda>e. if same_slot award e then overwritten now award e else e) rows"
  by (simp add: upsert_award_def overwritten_def)

lemma upsert_award_absent:
  "\<not> list_ex (same_slot award) rows \<Longrightarrow>
   upsert_award now award rows =
     rows @ [award\<lparr>award_ID := fresh_id (map award_ID rows), award_CreatedAt := now, award_UpdatedAt := now\<rparr>]"
  by (simp add: upsert_award_def)

lemma SaveAward_restaurants [simp]: "restaurants (SaveAward now award s) = restaurants s"
  by (simp add: SaveAward_def split: option.splits)

lemma SaveAward_rejected:
  "find (same_slot award) (awards s) = Some existing \<Longrightarrow> WaybackURL existing = [] \<Longrightarrow>
   WaybackURL award \<noteq> [] \<Longrightarrow> SaveAward now award s = s"
  by (simp add: SaveAward_def)

lemma SaveAward_overwrites:
  "find (same_slot award) (awards s) = Some existing \<Longrightarrow>
   \<not> (WaybackURL existing = [] \<and> WaybackURL award \<noteq> []) \<Longrightarrow>
   SaveAward now award s =
     s\<lparr>awards := map (\<lambda>e. if same_slot award e then overwritten now award e else e) (awards s)\<rparr>"
  by (auto simp: SaveAward_def upsert_award_present dest: find_Some_list_ex)

lemma SaveAward_inserts:
  "find (same_slot award) (awards s) = None \<Longrightarrow>
   SaveAward now award s =
     s\<lparr>awards := awards s @ [award\<lparr>award_ID := fresh_id (map award_ID (awards s)),
                                     award_CreatedAt := now, award_UpdatedAt := now\<rparr>]\<rparr>"
  using find_None_list_ex [of "same_slot award" "awards s"]
  by (simp add: SaveAward_def upsert_award_absent)

lemma find_map_overwritten:
  "find (same_slot a) rows = Some ex \<Longrightarrow>
   find (same_slot a) (map (\<lambda>e. if same_slot a e then overwritten t a e else e) rows)
     = Some (overwritten t a ex)"
  by (induction rows) (auto split: if_splits)

lemma find_append_new:
  "find P rows = None \<Longrightarrow> P x \<Longrightarrow> find P (rows @ [x]) = Some x"
  by (induction rows) (auto split: if_splits)

lemma overwritten_twice:
  "(overwritten t2 a (overwritten t1 a e))\<lparr>award_UpdatedAt := 0\<rparr> = (overwritten t1 a e)\<lparr>award_UpdatedAt := 0\<rparr>"
  by (simp add: overwritten_def)

lemma SaveAward_twice:
  "without_updated_at (SaveAward t2 a (SaveAward t1 a s)) = without_updated_at (SaveAward t1 a s)"
proof (cases "find (same_slot a) (awards s)")
  case None
  let ?n = "a\<lparr>award_ID := fresh_id (map award_ID (awards s)), award_CreatedAt := t1, award_UpdatedAt := t1\<rparr>"
  have s1: "SaveAward t1 a s = s\<lparr>awards := awards s @ [?n]\<rparr>"
    using None by (rule SaveAward_inserts)
  have slot_n: "same_slot a ?n" by (simp add: same_slot_def)
  have f: "find (same_slot a) (awards (SaveAward t1 a s)) = Some ?n"
    using None slot_n by (simp add: s1 find_append_new)
  have rest: "\<forall>e \<in> set (awards s). \<not> same_slot a e"
    using None by (simp add: find_None_iff)
  have "SaveAward t2 a (SaveAward t1 a s) =
        (SaveAward t1 a s)\<lparr>awards := map (\<lambda>e. if same_slot a e then overwritten t2 a e else e)
          (awards (SaveAward t1 a s))\<rparr>"
    using f by (rule SaveAward_overwrites) simp
  then show ?thesis
    using rest slot_n by (simp add: s1 without_updated_at_def overwritten_def map_idI cong: map_cong)
next
  case (Some ex)
  show ?thesis
  proof (cases "WaybackURL ex = [] \<and> WaybackURL a \<noteq> []")
    case True
    then have "SaveAward t1 a s = s" and "SaveAward t2 a s = s"
      using Some by (simp_all add: SaveAward_rejected)
    then show ?thesis by simp
  next
    case False
    have s1: "SaveAward t1 a s =
              s\<lparr>awards := map (\<lambda>e. if same_slot a e then overwritten t1 a e else e) (awards s)\<rparr>"
      using Some False by (rule SaveAward_overwrites)
    have f: "find (same_slot a) (awards (SaveAward t1 a s)) = Some (overwritten t1 a ex)"
      using Some by (simp add: s1 find_map_overwritten)
    have "SaveAward t2 a (SaveAward t1 a s) =
          (SaveAward t1 a s)\<lparr>awards := map (\<lambda>e. if same_slot a e then overwritten t2 a e else e)
            (awards (SaveAward t1 a s))\<rparr>"
      using f by (rule SaveAward_overwrites) (simp add: overwritten_def)
    then show ?thesis
      by (simp add: s1 without_updated_at_def overwritten_twice cong: map_cong)
  qed
qed

lemma without_updated_at_length:
  "without_updated_at s = without_updated_at s' \<Longrightarrow> length (awards s) = length (awards s')"
proof -
  assume "without_updated_at s = without_updated_at s'"
  then have "awards (without_updated_at s) = awards (without_updated_at s')" by simp
  then have "length (awards (without_updated_at s)) = length (awards (without_updated_at s'))" by simp
  then show ?thesis by (simp add: without_updated_at_def)
qed

lemma update_in_guide_awards [simp]: "awards (update_in_guide now ids b s) = awards s"
  by (simp add: update_in_guide_def)

lemma SaveAward_slot_present:
  "list_ex (same_slot award) (awards (SaveAward now award s))"
proof (cases "find (same_slot award) (awards s)")
  case None
  then show ?thesis
    by (simp add: SaveAward_inserts same_slot_def)
next
  case (Some ex)
  then have ex: "list_ex (same_slot award) (awards s)" by (rule find_Some_list_ex)
  show ?thesis
  proof (cases "WaybackURL ex = [] \<and> WaybackURL award \<noteq> []")
    case True
    then show ?thesis using Some ex by (simp add: SaveAward_rejected)
  next
    case False
    have "find (same_slot award) (awards (SaveAward now award s)) = Some (overwritten now award ex)"
      using Some False by (simp add: SaveAward_overwrites find_map_overwritten)
    then show ?thesis by (rule find_Some_list_ex)
  qed
qed

lemma addHistoricalAward_award_present:
  "list_ex (\<lambda>e. RestaurantID e = ID ex \<and> Year e = year)
     (awards (fst (addHistoricalAward tbl now ex row year isRecent cig (s, fs))))"
proof (cases "find (\<lambda>e. RestaurantID e = ID ex \<and> Year e = year) (awards s)")
  case None
  have eq: "same_slot (dataset_award tbl (ID ex) row year) = (\<lambda>e. RestaurantID e = ID ex \<and> Year e = year)"
    by (rule ext) (simp add: same_slot_def dataset_award_def)
  show ?thesis
    using None SaveAward_slot_present [of "dataset_award tbl (ID ex) row year"]
    by (simp add: addHistoricalAward_def eq)
next
  case (Some a)
  then show ?thesis
    by (simp add: addHistoricalAward_def find_Some_list_ex)
qed

lemma addHistoricalAward_skips:
  "list_ex (\<lambda>e. RestaurantID e = ID ex \<and> Year e = year) (awards s) \<Longrightarrow>
   addHistoricalAward tbl now ex row year isRecent cig (s, fs) =
     (s, fs\<lparr>fs_AwardsSkipped := fs_AwardsSkipped fs + 1\<rparr>)"
  using find_None_list_ex [of "\<lambda>e. RestaurantID e = ID ex \<and> Year e = year" "awards s"]
  by (auto simp: addHistoricalAward_def split: option.splits)

lemma addHistoricalAward_twice:
  "addHistoricalAward tbl t2 ex row year r2 c2 (addHistoricalAward tbl t1 ex row year r1 c1 (s, fs)) =
   (fst (addHistoricalAward tbl t1 ex row year r1 c1 (s, fs)),
    (snd (addHistoricalAward tbl t1 ex row year r1 c1 (s, fs)))
      \<lparr>fs_AwardsSkipped := fs_AwardsSkipped (snd (addHistoricalAward tbl t1 ex row year r1 c1 (s, fs))) + 1\<rparr>)"
proof -
  obtain s1 fs1 where eq: "addHistoricalAward tbl t1 ex row year r1 c1 (s, fs) = (s1, fs1)"
    by (cases "addHistoricalAward tbl t1 ex row year r1 c1 (s, fs)")
  have "list_ex (\<lambda>e. RestaurantID e = ID ex \<and> Year e = year) (awards s1)"
    using addHistoricalAward_award_present [of ex year tbl t1 row r1 c1 s fs] by (simp add: eq)
  then show ?thesis by (simp add: eq addHistoricalAward_skips)
qed

lemma overwritten_same_clock: "overwritten t a (overwritten t a e) = overwritten t a e"
  by (simp add: overwritten_def)

lemma SaveAward_same_clock: "SaveAward t a (SaveAward t a s) = SaveAward t a s"
proof (cases "find (same_slot a) (awards s)")
  case None
  let ?n = "a\<lparr>award_ID := fresh_id (map award_ID (awards s)), award_CreatedAt := t, award_UpdatedAt := t\<rparr>"
  have s1: "SaveAward t a s = s\<lparr>awards := awards s @ [?n]\<rparr>"
    using None by (rule SaveAward_inserts)
  have slot_n: "same_slot a ?n" by (simp add: same_slot_def)
  have f: "find (same_slot a) (awards (SaveAward t a s)) = Some ?n"
    using None slot_n by (simp add: s1 find_append_new)
  have rest: "\<forall>e \<in> set (awards s). \<not> same_slot a e"
    using None by (simp add: find_None_iff)
  have "SaveAward t a (SaveAward t a s) =
        (SaveAward t a s)\<lparr>awards := map (\<lambda>e. if same_slot a e then overwritten t a e else e)
          (awards (SaveAward t a s))\<rparr>"
    using f by (rule SaveAward_overwrites) simp
  then show ?thesis
    using rest slot_n by (simp add: s1 overwritten_def map_idI cong: map_cong)
next
  case (Some ex)
  show ?thesis
  proof (cases "WaybackURL ex = [] \<and> WaybackURL a \<noteq> []")
    case True
    then have "SaveAward t a s = s"
      using Some by (simp add: SaveAward_rejected)
    then show ?thesis by simp
  next
    case False
    have s1: "SaveAward t a s =
              s\<lparr>awards := map (\<lambda>e. if same_slot a e then overwritten t a e else e) (awards s)\<rparr>"
      using Some False by (rule SaveAward_overwrites)
    have f: "find (same_slot a) (awards (SaveAward t a s)) = Some (overwritten t a ex)"
      using Some by (simp add: s1 find_map_overwritten)
    have "SaveAward t a (SaveAward t a s) =
          (SaveAward t a s)\<lparr>awards := map (\<lambda>e. if same_slot a e then overwritten t a e else e)
            (awards (SaveAward t a s))\<rparr>"
      using f by (rule SaveAward_overwrites) (simp add: overwritten_def)
    then show ?thesis
      by (simp add: s1 overwritten_same_clock cong: map_cong)
  qed
qed

text \<open>
  C2 (as amended). Applying the same award twice through \<open>SaveAward\<close>, at the clock
  readings \<open>t1\<close> and \<open>t2\<close>, gives the store of the first application except for the
  \<^verbatim>\<open>updated_at\<close> stamp of the award, which every accepted upsert refreshes: the
  stores agree once the stamps are set aside, the number of award rows is the same, and
  under one clock reading the stores are equal. Through \<open>addHistoricalAward\<close> the second
  application leaves the store as the first one left it and counts one skipped award.
\<close>

theorem merge_idempotent_up_to_updated_at:
  "without_updated_at (SaveAward t2 a (SaveAward t1 a s)) = without_updated_at (SaveAward t1 a s) \<and>
   length (awards (SaveAward t2 a (SaveAward t1 a s))) = length (awards (SaveAward t1 a s)) \<and>
   SaveAward t1 a (SaveAward t1 a s) = SaveAward t1 a s \<and>
   addHistoricalAward tbl t2 ex row year r2 c2 (addHistoricalAward tbl t1 ex row year r1 c1 (s, fs))
     = (fst (addHistoricalAward tbl t1 ex row year r1 c1 (s, fs)),
        (snd (addHistoricalAward tbl t1 ex row year r1 c1 (s, fs)))
          \<lparr>fs_AwardsSkipped := fs_AwardsSkipped (snd (addHistoricalAward tbl t1 ex row year r1 c1 (s, fs))) + 1\<rparr>)"
proof (intro conjI)
  show "without_updated_at (SaveAward t2 a (SaveAward t1 a s)) = without_updated_at (SaveAward t1 a s)"
    by (rule SaveAward_twice)
  then show "length (awards (SaveAward t2 a (SaveAward t1 a s))) = length (awards (SaveAward t1 a s))"
    by (rule without_updated_at_length)
  show "SaveAward t1 a (SaveAward t1 a s) = SaveAward t1 a s"
    by (rule SaveAward_same_clock)
  show "addHistoricalAward tbl t2 ex row year r2 c2 (addHistoricalAward tbl t1 ex row year r1 c1 (s, fs))
     = (fst (addHistoricalAward tbl t1 ex row year r1 c1 (s, fs)),
        (snd (addHistoricalAward tbl t1 ex row year r1 c1 (s, fs)))
          \<lparr>fs_AwardsSkipped := fs_AwardsSkipped (snd (addHistoricalAward tbl t1 ex row year r1 c1 (s, fs))) + 1\<rparr>)"
    by (rule addHistoricalAward_twice)
qed

text \<open>
  C2 as stated fails: the second application of a scraped award at a later clock reading
  changes the stored \<^verbatim>\<open>updated_at\<close> of the row.
\<close>

theorem merge_twice_counterexample:
  "SaveAward 20 (scrape_fact 2024) (SaveAward 10 (scrape_fact 2024) empty_store) \<noteq> SaveAward 10 (scrape_fact 2024) empty_store \<and>
   map award_UpdatedAt (awards (SaveAward 10 (scrape_fact 2024) empty_store)) = [10] \<and>
   map award_UpdatedAt (awards (SaveAward 20 (scrape_fact 2024) (SaveAward 10 (scrape_fact 2024) empty_store))) = [20]"
proof -
  have a: "map award_UpdatedAt (awards (SaveAward 10 (scrape_fact 2024) empty_store)) = [10]"
    by (simp add: SaveAward_def upsert_award_def same_slot_def scrape_fact_def empty_store_def fresh_id_def)
  have b: "map award_UpdatedAt (awards (SaveAward 20 (scrape_fact 2024) (SaveAward 10 (scrape_fact 2024) empty_store))) = [20]"
    by (simp add: SaveAward_def upsert_award_def same_slot_def scrape_fact_def empty_store_def fresh_id_def)
  from a b show ?thesis by auto
qed

lemma awards_unique_rows:
  "awards_unique s \<Longrightarrow> e \<in> set (awards s) \<Longrightarrow> same_slot award e \<Longrightarrow> x \<in> set (awards s) \<Longrightarrow>
   same_slot award x \<longleftrightarrow> x = e"
  by (auto simp: awards_unique_def same_slot_iff distinct_map inj_on_def)

text \<open>
  C3 (as amended). Through \<open>SaveAward\<close>, an incoming award for a (restaurant, year)
  whose stored row has a non-empty archive reference overwrites the distinction, the
  price, the green-star flag and the archive reference of that row (and stamps
  \<^verbatim>\<open>updated_at\<close>), whatever the provenance of the incoming award; every other row
  and every restaurant stay as they were.
\<close>

theorem SaveAward_backfill_overwritten:
  assumes "awards_unique s"
    and "e \<in> set (awards s)"
    and "RestaurantID e = RestaurantID award" and "Year e = Year award"
    and "WaybackURL e \<noteq> []"
  shows "awards (SaveAward now award s) =
           map (\<lambda>x. if x = e then overwritten now award e else x) (awards s) \<and>
         restaurants (SaveAward now award s) = restaurants s"
proof -
  have sl: "same_slot award e" using assms(3,4) by (simp add: same_slot_def)
  then have f: "find (same_slot award) (awards s) = Some e"
    using assms(1,2) by (rule find_slot_row [rotated 2])
  have "SaveAward now award s =
        s\<lparr>awards := map (\<lambda>x. if same_slot award x then overwritten now award x else x) (awards s)\<rparr>"
    using f assms(5) by (simp add: SaveAward_overwrites)
  moreover have "map (\<lambda>x. if same_slot award x then overwritten now award x else x) (awards s) =
                 map (\<lambda>x. if x = e then overwritten now award e else x) (awards s)"
    using awards_unique_rows [OF assms(1,2) sl] by (auto intro!: map_cong)
  ultimately show ?thesis by simp
qed

text \<open>
  C3 as stated fails on the dataset path: a row of a dataset file for a restaurant and
  year whose stored award came from backfill is not accepted; the store stays as it was
  and the row is counted as a skipped award.
\<close>

theorem dataset_fact_skipped_counterexample:
  "WaybackURL backfill_award \<noteq> [] \<and> backfill_award \<in> set (awards backfill_store) \<and>
   Year backfill_award = 2019 \<and> Distinction backfill_award = ''1 Star'' \<and>
   fst (processHistoricalRestaurant example_case_table (Time 2025 1 1 0) 20 dataset_row 2019 (backfill_store, demo_stats))
     = backfill_store \<and>
   fs_AwardsSkipped (snd (processHistoricalRestaurant example_case_table (Time 2025 1 1 0) 20 dataset_row 2019
     (backfill_store, demo_stats))) = 1 \<and>
   fs_AwardsAdded (snd (processHistoricalRestaurant example_case_table (Time 2025 1 1 0) 20 dataset_row 2019
     (backfill_store, demo_stats))) = 0"
  by (simp add: processHistoricalRestaurant_def getCurrentGuideRestaurant_def
      FindRestaurantByWebsiteURL_def FindRestaurantByURL_def addHistoricalAward_def
      backfill_store_def backfill_award_def demo_restaurant_def dataset_row_def demo_stats_def
      inGuide_bool_def isRecentDataset_def Before_def)

lemma find_mem: "find P xs = Some x \<Longrightarrow> x \<in> set xs \<and> P x"
  by (auto simp: find_Some_iff)

lemma save_restaurant_mem:
  "ex \<in> set rows \<Longrightarrow> ID r = ID ex \<Longrightarrow> r \<in> set (save_restaurant r rows)"
  by (force simp: save_restaurant_def)

lemma save_restaurant_others:
  "x \<in> set rows \<Longrightarrow> ID x \<noteq> ID r \<Longrightarrow> x \<in> set (save_restaurant r rows)"
  by (force simp: save_restaurant_def)

lemma Upsert_invalid_year:
  "d_Year data \<le> 0 \<Longrightarrow>
   awards (fst (UpsertRestaurantWithAward now data s)) = awards s \<and>
   snd (UpsertRestaurantWithAward now data s) = [(Warn, ''Skipping award upsert due to invalid year'')]"
  by (simp add: UpsertRestaurantWithAward_def Let_def split: option.splits)

lemma Upsert_restaurant_row:
  "\<exists>r \<in> set (restaurants (fst (UpsertRestaurantWithAward now data s))).
      URL r = d_URL data \<and> Name r = d_Name data \<and> Description r = d_Description data \<and>
      Address r = d_Address data \<and> Location r = d_Location data \<and>
      Latitude r = d_Latitude data \<and> Longitude r = d_Longitude data \<and>
      Cuisine r = d_Cuisine data \<and> FacilitiesAndServices r = d_FacilitiesAndServices data \<and>
      PhoneNumber r = d_PhoneNumber data \<and> WebsiteURL r = d_WebsiteURL data \<and>
      InGuide r = Some (inGuide_of data) \<and> UpdatedAt r = now"
proof (cases "find (\<lambda>r. URL r = d_URL data) (restaurants s)")
  case None
  then show ?thesis
    by (simp add: UpsertRestaurantWithAward_def Let_def inGuide_of_def)
next
  case (Some ex)
  let ?r = "ex\<lparr>Name := d_Name data, Description := d_Description data, Address := d_Address data,
              Location := d_Location data, Latitude := d_Latitude data, Longitude := d_Longitude data,
              Cuisine := d_Cuisine data, FacilitiesAndServices := d_FacilitiesAndServices data,
              PhoneNumber := d_PhoneNumber data, WebsiteURL := d_WebsiteURL data,
              InGuide := Some (inGuide_of data), UpdatedAt := now\<rparr>"
  from Some have ex: "ex \<in> set (restaurants s)" and url: "URL ex = d_URL data"
    by (auto dest: find_mem)
  have restaurants: "restaurants (fst (UpsertRestaurantWithAward now data s)) = save_restaurant ?r (restaurants s)"
    using Some by (simp add: UpsertRestaurantWithAward_def Let_def inGuide_of_def)
  have "?r \<in> set (save_restaurant ?r (restaurants s))"
    using ex by (rule save_restaurant_mem) simp
  then show ?thesis
    unfolding restaurants using url by (intro bexI [of _ ?r]) simp_all
qed

text \<open>
  C4. For a fact whose year is zero or negative, \<open>UpsertRestaurantWithAward\<close> leaves
  the award table as it was and logs the warning, while the restaurant of the fact's URL
  is in the store afterwards with the fact's fields.
\<close>

theorem Upsert_invalid_year_keeps_awards:
  assumes "d_Year data \<le> 0"
  shows "awards (fst (UpsertRestaurantWithAward now data s)) = awards s \<and>
         snd (UpsertRestaurantWithAward now data s) = [(Warn, ''Skipping award upsert due to invalid year'')] \<and>
         (\<exists>r \<in> set (restaurants (fst (UpsertRestaurantWithAward now data s))).
            URL r = d_URL data \<and> Name r = d_Name data \<and> Description r = d_Description data \<and>
            Address r = d_Address data \<and> Location r = d_Location data \<and>
            Latitude r = d_Latitude data \<and> Longitude r = d_Longitude data \<and>
            Cuisine r = d_Cuisine data \<and> FacilitiesAndServices r = d_FacilitiesAndServices data \<and>
            PhoneNumber r = d_PhoneNumber data \<and> WebsiteURL r = d_WebsiteURL data \<and>
            InGuide r = Some (inGuide_of data) \<and> UpdatedAt r = now)"
  using Upsert_invalid_year [OF assms] Upsert_restaurant_row by blast

lemma find_unique_id:
  "ids_unique s \<Longrightarrow> find P (restaurants s) = Some ex \<Longrightarrow> x \<in> set (restaurants s) \<Longrightarrow>
   ID x = ID ex \<Longrightarrow> x = ex"
  by (auto simp: ids_unique_def distinct_map inj_on_def dest!: find_mem)

text \<open>
  C7 (as amended). The live crawl path writes \<^verbatim>\<open>InGuide\<close>: after
  \<open>UpsertRestaurantWithAward\<close> the restaurant of the fact's URL has the fact's
  \<^verbatim>\<open>InGuide\<close> value, \<^verbatim>\<open>true\<close> when the fact leaves it unset; the row of every
  restaurant with another URL is unchanged.
\<close>

theorem Upsert_sets_InGuide:
  assumes "ids_unique s"
  shows "(\<exists>r \<in> set (restaurants (fst (UpsertRestaurantWithAward now data s))).
            URL r = d_URL data \<and> InGuide r = Some (inGuide_of data)) \<and>
         (\<forall>x \<in> set (restaurants s). URL x \<noteq> d_URL data \<longrightarrow>
            x \<in> set (restaurants (fst (UpsertRestaurantWithAward now data s))))"
proof
  show "\<exists>r \<in> set (restaurants (fst (UpsertRestaurantWithAward now data s))).
            URL r = d_URL data \<and> InGuide r = Some (inGuide_of data)"
    using Upsert_restaurant_row [of now data s] by blast
  show "\<forall>x \<in> set (restaurants s). URL x \<noteq> d_URL data \<longrightarrow>
            x \<in> set (restaurants (fst (UpsertRestaurantWithAward now data s)))"
  proof (intro ballI impI)
    fix x assume x: "x \<in> set (restaurants s)" and url: "URL x \<noteq> d_URL data"
    show "x \<in> set (restaurants (fst (UpsertRestaurantWithAward now data s)))"
    proof (cases "find (\<lambda>r. URL r = d_URL data) (restaurants s)")
      case None
      then show ?thesis using x
        by (simp add: UpsertRestaurantWithAward_def Let_def)
    next
      case (Some ex)
      then have "URL ex = d_URL data" by (auto dest: find_mem)
      with url have "x \<noteq> ex" by auto
      with find_unique_id [OF assms Some x] have "ID x \<noteq> ID ex" by auto
      then show ?thesis using Some x
        by (simp add: UpsertRestaurantWithAward_def Let_def save_restaurant_others)
    qed
  qed
qed

theorem SaveAward_backfill_overwritten_witness:
  "awards_unique backfill_store \<and> backfill_award \<in> set (awards backfill_store) \<and>
   RestaurantID backfill_award = RestaurantID (scrape_fact 2019) \<and>
   Year backfill_award = Year (scrape_fact 2019) \<and> WaybackURL backfill_award \<noteq> [] \<and>
   map Distinction (awards (SaveAward 20 (scrape_fact 2019) backfill_store)) = [''2 Stars''] \<and>
   map WaybackURL (awards (SaveAward 20 (scrape_fact 2019) backfill_store)) = [[]] \<and>
   map Distinction (awards (SaveAward 20 (backfill_fact 2019) backfill_store)) = [''Bib Gourmand'']"
proof -
  have h1: "awards_unique backfill_store"
    by (simp add: awards_unique_def backfill_store_def)
  have h2: "backfill_award \<in> set (awards backfill_store)"
    by (simp add: backfill_store_def)
  have h3: "RestaurantID backfill_award = RestaurantID (scrape_fact 2019)"
    and h3': "RestaurantID backfill_award = RestaurantID (backfill_fact 2019)"
    by (simp_all add: backfill_award_def scrape_fact_def backfill_fact_def)
  have h4: "Year backfill_award = Year (scrape_fact 2019)"
    and h4': "Year backfill_award = Year (backfill_fact 2019)"
    by (simp_all add: backfill_award_def scrape_fact_def backfill_fact_def)
  have h5: "WaybackURL backfill_award \<noteq> []"
    by (simp add: backfill_award_def)
  have a: "map Distinction (awards (SaveAward 20 (scrape_fact 2019) backfill_store)) = [''2 Stars'']"
    and b: "map WaybackURL (awards (SaveAward 20 (scrape_fact 2019) backfill_store)) = [[]]"
    using SaveAward_backfill_overwritten [OF h1 h2 h3 h4 h5, of 20]
    by (simp_all add: backfill_store_def overwritten_def scrape_fact_def)
  have c: "map Distinction (awards (SaveAward 20 (backfill_fact 2019) backfill_store)) = [''Bib Gourmand'']"
    using SaveAward_backfill_overwritten [OF h1 h2 h3' h4' h5, of 20]
    by (simp add: backfill_store_def overwritten_def backfill_fact_def)
  from h1 h2 h3 h4 h5 a b c show ?thesis by simp
qed

theorem Upsert_invalid_year_keeps_awards_witness:
  "d_Year (live_data None 0) \<le> 0 \<and>
   awards (fst (UpsertRestaurantWithAward 20 (live_data None 0) scrape_store)) = awards scrape_store \<and>
   map Name (restaurants (fst (UpsertRestaurantWithAward 20 (live_data None 0) scrape_store))) = [''X new'']"
proof -
  have h: "d_Year (live_data None 0) \<le> 0" by (simp add: live_data_def)
  have "map Name (restaurants (fst (UpsertRestaurantWithAward 20 (live_data None 0) scrape_store))) = [''X new'']"
    by (simp add: UpsertRestaurantWithAward_def Let_def live_data_def scrape_store_def
        demo_restaurant_def save_restaurant_def)
  with h Upsert_invalid_year_keeps_awards [OF h, of 20 scrape_store] show ?thesis by simp
qed

theorem Upsert_sets_InGuide_witness:
  "ids_unique (store_with_InGuide (Some False)) \<and>
   (\<exists>r \<in> set (restaurants (fst (UpsertRestaurantWithAward 20 (live_data None 2024)
                                     (store_with_InGuide (Some False))))).
      URL r = d_URL (live_data None 2024) \<and> InGuide r = Some True)"
proof -
  have h: "ids_unique (store_with_InGuide (Some False))"
    by (simp add: ids_unique_def store_with_InGuide_def)
  have "inGuide_of (live_data None 2024) = True"
    by (simp add: inGuide_of_def live_data_def)
  with h Upsert_sets_InGuide [OF h, of 20 "live_data None 2024"] show ?thesis by simp
qed

text \<open>
  C7 as stated fails: a live fact for a stored restaurant that is not in the guide sets
  its \<^verbatim>\<open>InGuide\<close> to \<^verbatim>\<open>true\<close>, whether the fact leaves \<^verbatim>\<open>InGuide\<close> unset or
  sets it, and a fact that carries \<^verbatim>\<open>false\<close> takes a restaurant out of the guide.
\<close>

theorem live_crawl_changes_InGuide_counterexample:
  "map InGuide (restaurants (store_with_InGuide (Some False))) = [Some False] \<and>
   map InGuide (restaurants (fst (UpsertRestaurantWithAward 20 (live_data None 2024)
     (store_with_InGuide (Some False))))) = [Some True] \<and>
   map InGuide (restaurants (fst (UpsertRestaurantWithAward 20 (live_data (Some True) 2024)
     (store_with_InGuide (Some False))))) = [Some True] \<and>
   map InGuide (restaurants (fst (UpsertRestaurantWithAward 20 (live_data (Some False) 2024)
     (store_with_InGuide (Some True))))) = [Some False]"
  by (simp add: UpsertRestaurantWithAward_def Let_def live_data_def store_with_InGuide_def
      demo_restaurant_def save_restaurant_def)

section \<open>Properties of the parser\<close>














lemma long_s_star_three_stars:
  "tbl 0x17F = 0x17F \<Longrightarrow> ParseDistinction tbl long_s_star = ThreeStars"
  by (simp add: ParseDistinction_def normalise_distinction_def ToLower_def strings_Map_def
      DecodeRune_def decode_seq_def isASCII_def hi_byte_def cont_def lowerRune_def
      EncodeRune_def long_s_star_def) code_simp


section \<open>Properties of the error handler\<close>

lemma wrap64_id: "- 9223372036854775808 \<le> x \<Longrightarrow> x < 9223372036854775808 \<Longrightarrow> wrap64 x = x"
  by (simp add: wrap64_def)

lemma attempt_square_bound:
  assumes "0 \<le> (a::int)" and "a < m" and "m \<le> 32768"
  shows "0 \<le> a * a" and "a * a \<le> 1073741824"
proof -
  show "0 \<le> a * a" using assms(1) by simp
  have "a \<le> 32768" using assms(2,3) by simp
  then have "a * a \<le> 32768 * 32768" using assms(1) by (intro mult_mono) simp_all
  then show "a * a \<le> 1073741824" by simp
qed

lemma backoff_403_exact:
  assumes "0 \<le> (a::int)" and "a < m" and "m \<le> 32768"
  shows "wrap64 (wrap64 (wrap64 (a * a) * 8) * Second) = a * a * 8 * Second"
proof -
  note b = attempt_square_bound [OF assms]
  have 1: "wrap64 (a * a) = a * a" using b by - (rule wrap64_id; linarith)
  have 2: "wrap64 (a * a * 8) = a * a * 8" using b by - (rule wrap64_id; linarith)
  have 3: "wrap64 (a * a * 8 * Second) = a * a * 8 * Second"
    unfolding Second_def using b by - (rule wrap64_id; linarith)
  show ?thesis by (simp add: 1 2 3)
qed

lemma backoff_linear_exact:
  assumes "0 \<le> (a::int)" and "a < m" and "m \<le> 32768" and "0 \<le> d" and "d \<le> 2 ^ 47"
  shows "wrap64 (a * d) = a * d"
proof -
  have "a \<le> 32768" using assms(2,3) by simp
  then have "a * d \<le> 32768 * 2 ^ 47" using assms(1,4,5) by (intro mult_mono) simp_all
  then have "a * d \<le> 4611686018427387904" by simp
  moreover have "0 \<le> a * d" using assms(1,4) by simp
  ultimately show ?thesis by - (rule wrap64_id; linarith)
qed

lemma next_attempt_exact:
  assumes "0 \<le> (a::int)" and "a < m" and "m \<le> 32768"
  shows "wrap64 (a + 1) = a + 1"
  using assms by (intro wrap64_id) simp_all

lemma handle_failures_bounded:
  assumes "MaxRetry cfg \<le> 32768"
  shows "0 \<le> attempt \<Longrightarrow>
         length (handle_failures sha1hex cfg url failures cache (Some attempt))
           \<le> nat (MaxRetry cfg - attempt) + 1"
proof (induction failures arbitrary: cache attempt)
  case Nil
  then show ?case by simp
next
  case (Cons f failures)
  obtain status err where f: "f = (status, err)" by (cases f)
  let ?h = "createErrorHandler sha1hex cfg cache
              \<lparr>StatusCode = status, RequestURL = url, CtxAttempt = Some attempt\<rparr> err"
  show ?case
  proof (cases "out_retry ?h")
    case False
    then show ?thesis by (simp add: f Let_def)
  next
    case True
    then have lt: "attempt < MaxRetry cfg"
      by (auto simp: createErrorHandler_def Let_def split: if_splits)
    then have nxt: "out_attempt ?h = Some (attempt + 1)"
      using True next_attempt_exact [OF Cons.prems lt assms]
      by (auto simp: createErrorHandler_def Let_def split: if_splits)
    have "length (handle_failures sha1hex cfg url failures (out_cache ?h) (Some (attempt + 1)))
            \<le> nat (MaxRetry cfg - (attempt + 1)) + 1"
      using Cons.prems by (intro Cons.IH) simp
    then show ?thesis using True lt nxt by (simp add: f Let_def)
  qed
qed

lemma split_slash_nonempty [simp]: "split_slash s \<noteq> []"
  by (induction s) (auto split: list.splits)

lemma split_slash_no_slash: "e \<in> set (split_slash s) \<Longrightarrow> CHR ''/'' \<notin> set e"
  by (induction s arbitrary: e) (auto split: list.splits if_splits)

lemma split_slash_append:
  "split_slash (a @ CHR ''/'' # b) = split_slash a @ split_slash b"
  by (induction a) (auto split: list.splits)

lemma split_slash_plain: "CHR ''/'' \<notin> set e \<Longrightarrow> split_slash e = [e]"
  by (induction e) (auto split: list.splits)

lemma split_join_slash:
  "out \<noteq> [] \<Longrightarrow> \<forall>e \<in> set out. CHR ''/'' \<notin> set e \<Longrightarrow> split_slash (join_slash out) = out"
proof (induction out rule: join_slash.induct)
  case 1 thus ?case by simp
next
  case (2 e) thus ?case by (simp add: split_slash_plain)
next
  case (3 e f es)
  thus ?case by (simp add: split_slash_append split_slash_plain)
qed

lemma dots_first_snoc: "dots_first out \<Longrightarrow> e \<noteq> ''..'' \<Longrightarrow> dots_first (out @ [e])"
  by (induction out) auto

lemma dots_first_all: "set out \<subseteq> {''..''} \<Longrightarrow> dots_first (out @ es) = dots_first es"
  by (induction out) auto

lemma dots_first_before: "dots_first (xs @ ''..'' # ys) \<Longrightarrow> set xs \<subseteq> {''..''}"
  by (induction xs) (auto split: if_splits)

lemma dots_first_last:
  assumes "dots_first out" and "out \<noteq> []" and "last out = ''..''"
  shows "set out \<subseteq> {''..''}"
proof -
  have o: "butlast out @ [''..''] = out" using assms(2,3) by (metis append_butlast_last_id)
  have "dots_first (butlast out @ ''..'' # [])" using assms(1) by (simp only: o)
  hence b: "set (butlast out) \<subseteq> {''..''}" by (rule dots_first_before)
  have "set out = set (butlast out @ [''..''])" by (simp only: o)
  also have "\<dots> = set (butlast out) \<union> {''..''}" by simp
  finally show ?thesis using b by simp
qed

lemma dots_first_butlast: "dots_first out \<Longrightarrow> dots_first (butlast out)"
  by (induction out) (auto dest: in_set_butlastD split: if_splits)

lemma shaped_Nil [simp]: "shaped rooted []"
  by (simp add: shaped_def)

lemma shaped_step:
  assumes "shaped rooted out" and "CHR ''/'' \<notin> set e"
  shows "shaped rooted (clean_step rooted out e)"
proof -
  from assms(1) have pl: "\<forall>e \<in> set out. plain e" and df: "dots_first out"
    and ro: "rooted \<longrightarrow> ''..'' \<notin> set out"
    by (auto simp: shaped_def)
  consider (skip) "e = [] \<or> e = ''.''" | (up) "e = ''..''" | (norm) "e \<noteq> []" "e \<noteq> ''.''" "e \<noteq> ''..''"
    by blast
  thus ?thesis
  proof cases
    case skip
    thus ?thesis using assms(1) by (auto simp: clean_step_def)
  next
    case norm
    have "plain e" using norm assms(2) by (simp add: plain_def)
    hence "shaped rooted (out @ [e])"
      unfolding shaped_def using pl ro norm dots_first_snoc [OF df norm(3)] by auto
    thus ?thesis using norm by (simp add: clean_step_def)
  next
    case up
    show ?thesis
    proof (cases "out \<noteq> [] \<and> last out \<noteq> ''..''")
      case True
      have "shaped rooted (butlast out)"
        unfolding shaped_def using pl ro dots_first_butlast [OF df]
        by (auto dest: in_set_butlastD)
      thus ?thesis using up True by (simp add: clean_step_def)
    next
      case False
      show ?thesis
      proof (cases rooted)
        case True
        thus ?thesis using up False assms(1) by (auto simp: clean_step_def)
      next
        case nr: False
        have "set out \<subseteq> {''..''}"
          using False dots_first_last [OF df] by (cases "out = []") auto
        hence "dots_first (out @ [''..''])" by (simp add: dots_first_all)
        moreover have "plain ''..''" by (simp add: plain_def)
        ultimately have "shaped rooted (out @ [''..''])"
          unfolding shaped_def using pl nr by auto
        thus ?thesis using up False nr by (auto simp: clean_step_def)
      qed
    qed
  qed
qed

lemma shaped_foldl:
  "shaped rooted acc \<Longrightarrow> \<forall>e \<in> set es. CHR ''/'' \<notin> set e \<Longrightarrow>
   shaped rooted (foldl (clean_step rooted) acc es)"
  by (induction es arbitrary: acc) (simp_all add: shaped_step)

lemma foldl_shaped_id:
  "shaped rooted (acc @ es) \<Longrightarrow> foldl (clean_step rooted) acc es = acc @ es"
proof (induction es arbitrary: acc)
  case Nil
  thus ?case by simp
next
  case (Cons e es)
  from Cons.prems have pl: "\<forall>x \<in> set (acc @ e # es). plain x"
    and df: "dots_first (acc @ e # es)"
    and ro: "rooted \<longrightarrow> ''..'' \<notin> set (acc @ e # es)"
    by (auto simp: shaped_def)
  have pe: "plain e" using pl by simp
  have step: "clean_step rooted acc e = acc @ [e]"
  proof (cases "e = ''..''")
    case False
    thus ?thesis using pe by (simp add: clean_step_def plain_def)
  next
    case True
    have "set acc \<subseteq> {''..''}" using df True dots_first_before by blast
    hence "acc = [] \<or> last acc = ''..''" by (cases "acc = []") (auto dest: last_in_set)
    moreover have "\<not> rooted" using ro True by auto
    ultimately show ?thesis using True by (auto simp: clean_step_def)
  qed
  show ?case using Cons.IH [of "acc @ [e]"] Cons.prems step by simp
qed


lemma hd_join_slash: "out \<noteq> [] \<Longrightarrow> hd out \<noteq> [] \<Longrightarrow> hd (join_slash out) = hd (hd out)"
  by (induction out rule: join_slash.induct) simp_all

lemma shaped_out: "shaped rooted (foldl (clean_step rooted) [] (split_slash p))"
  by (rule shaped_foldl) (simp_all add: split_slash_no_slash)

lemma Clean_nonempty: "Clean p \<noteq> []"
proof -
  have "join_slash out \<noteq> []" if "out \<noteq> []" "\<forall>e \<in> set out. plain e" for out
    using that by (induction out rule: join_slash.induct) (auto simp: plain_def)
  thus ?thesis
    using shaped_out [of "hd p = CHR ''/''" p]
    by (auto simp: Clean_def Let_def shaped_def)
qed

lemma Clean_rooted:
  assumes "p \<noteq> []"
  shows "(hd (Clean p) = CHR ''/'') = (hd p = CHR ''/'')"
proof (cases "hd p = CHR ''/''")
  case True
  thus ?thesis using assms by (simp add: Clean_def Let_def)
next
  case False
  let ?out = "foldl (clean_step False) [] (split_slash p)"
  have sh: "shaped False ?out" by (rule shaped_out)
  show ?thesis
  proof (cases "?out = []")
    case True
    thus ?thesis using False assms by (simp add: Clean_def Let_def)
  next
    case ne: False
    hence "plain (hd ?out)" using sh by (simp add: shaped_def)
    hence "hd ?out \<noteq> []" "hd (hd ?out) \<noteq> CHR ''/''"
      by (auto simp: plain_def dest: hd_in_set)
    hence "hd (join_slash ?out) \<noteq> CHR ''/''" using ne by (simp add: hd_join_slash)
    thus ?thesis using False assms ne by (simp add: Clean_def Let_def)
  qed
qed

lemma Clean_elements:
  assumes "p \<noteq> []"
  shows "foldl (clean_step (hd p = CHR ''/'')) [] (split_slash (Clean p))
           = foldl (clean_step (hd p = CHR ''/'')) [] (split_slash p)"
proof -
  let ?r = "hd p = CHR ''/''"
  let ?out = "foldl (clean_step ?r) [] (split_slash p)"
  have sh: "shaped ?r ?out" by (rule shaped_out)
  have ns: "\<forall>e \<in> set ?out. CHR ''/'' \<notin> set e" using sh by (simp add: shaped_def plain_def)
  have id: "foldl (clean_step ?r) [] ?out = ?out"
    using foldl_shaped_id [of ?r "[]" ?out] sh by simp
  show ?thesis
  proof (cases "?out = []")
    case True
    thus ?thesis using assms by (auto simp: Clean_def Let_def clean_step_def)
  next
    case False
    have sj: "split_slash (join_slash ?out) = ?out" using False ns by (rule split_join_slash)
    show ?thesis
    proof (cases ?r)
      case True
      hence "Clean p = CHR ''/'' # join_slash ?out" using assms by (simp add: Clean_def Let_def)
      hence "split_slash (Clean p) = [] # ?out" using sj by simp
      thus ?thesis using id by (simp add: clean_step_def)
    next
      case nr: False
      hence "Clean p = join_slash ?out" using assms False by (simp add: Clean_def Let_def)
      thus ?thesis using sj id by simp
    qed
  qed
qed

lemma Clean_append_Clean:
  assumes "p \<noteq> []"
  shows "Clean (Clean p @ CHR ''/'' # x) = Clean (p @ CHR ''/'' # x)"
proof -
  let ?r = "hd p = CHR ''/''"
  have r1: "(hd (Clean p @ CHR ''/'' # x) = CHR ''/'') = ?r"
    using Clean_rooted [OF assms] Clean_nonempty [of p] by simp
  have r2: "(hd (p @ CHR ''/'' # x) = CHR ''/'') = ?r" using assms by simp
  have "foldl (clean_step ?r) [] (split_slash (Clean p @ CHR ''/'' # x))
          = foldl (clean_step ?r) [] (split_slash (p @ CHR ''/'' # x))"
    using Clean_elements [OF assms] by (simp add: split_slash_append)
  thus ?thesis
    unfolding Clean_def [of "Clean p @ CHR ''/'' # x"] Clean_def [of "p @ CHR ''/'' # x"] r1 r2
    by simp
qed

lemma Join_Clean:
  assumes "p \<noteq> []"
  shows "Join [Join [p], x] = Join [p, x]"
  using assms Clean_append_Clean [OF assms, of x] Clean_nonempty [of p]
  by (simp add: Join_def)

lemma cache_filename_is_collys:
  assumes "CachePath cfg \<noteq> []"
  shows "cache_filename sha1hex (CachePath cfg) url
           = colly_cache_file sha1hex (collector_CacheDir cfg) url"
  using Join_Clean [OF assms, of "take 2 (sha1hex url)"]
  by (simp add: cache_filename_def colly_cache_file_def collector_CacheDir_def Let_def)

text \<open>
  C10. With \<open>attempt\<close> the attempt number the handler reads from the request context
  (1 when there is none), and for a configuration whose retry ceiling and delay keep the
  64-bit products from wrapping: on status 403 below the ceiling the handler sleeps
  \<open>attempt\<^sup>2 \<times> 8\<close> seconds, stores \<open>attempt + 1\<close> and retries, and, the cache path
  of the configuration not being empty, the cache afterwards is the cache before without
  the file in which the collector keeps the response for the URL of the request; on status
  403 at the ceiling it logs an error and does not retry; on another status, an
  \<^verbatim>\<open>already visited\<close> error is skipped without retry, sleep or cache change; any
  other failure below the ceiling removes that same file, sleeps \<open>attempt \<times> Delay\<close>
  and retries, and at the ceiling is logged and given up. A URL that keeps failing is
  handled at most \<open>MaxRetry - attempt + 1\<close> times.
\<close>

theorem error_handler_retries:
  assumes "attempt = (case CtxAttempt r of Some a \<Rightarrow> a | None \<Rightarrow> 1)"
    and "0 \<le> attempt"
    and "MaxRetry cfg \<le> 32768"
    and "0 \<le> Delay cfg" and "Delay cfg \<le> 2 ^ 47"
  shows "(StatusCode r = 403 \<and> attempt < MaxRetry cfg \<longrightarrow>
            (CachePath cfg \<noteq> [] \<longrightarrow>
               out_cache (createErrorHandler sha1hex cfg cache r err)
                 = cache - {colly_cache_file sha1hex (collector_CacheDir cfg) (RequestURL r)}) \<and>
            out_sleep (createErrorHandler sha1hex cfg cache r err) = Some (attempt * attempt * 8 * Second) \<and>
            out_attempt (createErrorHandler sha1hex cfg cache r err) = Some (attempt + 1) \<and>
            out_retry (createErrorHandler sha1hex cfg cache r err)) \<and>
         (StatusCode r = 403 \<and> MaxRetry cfg \<le> attempt \<longrightarrow>
            \<not> out_retry (createErrorHandler sha1hex cfg cache r err) \<and>
            out_sleep (createErrorHandler sha1hex cfg cache r err) = None \<and>
            out_cache (createErrorHandler sha1hex cfg cache r err) = cache \<and>
            list_ex (\<lambda>e. fst e = Error) (out_log (createErrorHandler sha1hex cfg cache r err))) \<and>
         (StatusCode r \<noteq> 403 \<and> Contains err ''already visited'' \<longrightarrow>
            \<not> out_retry (createErrorHandler sha1hex cfg cache r err) \<and>
            out_sleep (createErrorHandler sha1hex cfg cache r err) = None \<and>
            out_attempt (createErrorHandler sha1hex cfg cache r err) = CtxAttempt r \<and>
            out_cache (createErrorHandler sha1hex cfg cache r err) = cache) \<and>
         (StatusCode r \<noteq> 403 \<and> \<not> Contains err ''already visited'' \<and> attempt < MaxRetry cfg \<longrightarrow>
            (CachePath cfg \<noteq> [] \<longrightarrow>
               out_cache (createErrorHandler sha1hex cfg cache r err)
                 = cache - {colly_cache_file sha1hex (collector_CacheDir cfg) (RequestURL r)}) \<and>
            out_sleep (createErrorHandler sha1hex cfg cache r err) = Some (attempt * Delay cfg) \<and>
            out_attempt (createErrorHandler sha1hex cfg cache r err) = Some (attempt + 1) \<and>
            out_retry (createErrorHandler sha1hex cfg cache r err)) \<and>
         (StatusCode r \<noteq> 403 \<and> \<not> Contains err ''already visited'' \<and> MaxRetry cfg \<le> attempt \<longrightarrow>
            \<not> out_retry (createErrorHandler sha1hex cfg cache r err) \<and>
            out_sleep (createErrorHandler sha1hex cfg cache r err) = None \<and>
            out_cache (createErrorHandler sha1hex cfg cache r err) = cache \<and>
            list_ex (\<lambda>e. fst e = Error) (out_log (createErrorHandler sha1hex cfg cache r err))) \<and>
         length (handle_failures sha1hex cfg (RequestURL r) failures cache (Some attempt))
           \<le> nat (MaxRetry cfg - attempt) + 1"
proof (intro conjI impI)
  assume c: "StatusCode r = 403 \<and> attempt < MaxRetry cfg"
  then have lt: "attempt < MaxRetry cfg" by simp
  note e = backoff_403_exact [OF assms(2) lt assms(3)] next_attempt_exact [OF assms(2) lt assms(3)]
  show "out_cache (createErrorHandler sha1hex cfg cache r err)
              = cache - {colly_cache_file sha1hex (collector_CacheDir cfg) (RequestURL r)}"
    if "CachePath cfg \<noteq> []"
    using c assms(1) cache_filename_is_collys [OF that, of sha1hex "RequestURL r"]
    by (simp add: createErrorHandler_def Let_def ClearCache_def)
  show "out_sleep (createErrorHandler sha1hex cfg cache r err) = Some (attempt * attempt * 8 * Second)"
    using c assms(1) e by (simp add: createErrorHandler_def Let_def)
  show "out_attempt (createErrorHandler sha1hex cfg cache r err) = Some (attempt + 1)"
    using c assms(1) e by (simp add: createErrorHandler_def Let_def)
  show "out_retry (createErrorHandler sha1hex cfg cache r err)"
    using c assms(1) by (simp add: createErrorHandler_def Let_def)
next
  assume c: "StatusCode r = 403 \<and> MaxRetry cfg \<le> attempt"
  show "\<not> out_retry (createErrorHandler sha1hex cfg cache r err)"
    and "out_sleep (createErrorHandler sha1hex cfg cache r err) = None"
    and "out_cache (createErrorHandler sha1hex cfg cache r err) = cache"
    and "list_ex (\<lambda>e. fst e = Error) (out_log (createErrorHandler sha1hex cfg cache r err))"
    using c assms(1) by (simp_all add: createErrorHandler_def Let_def)
next
  assume c: "StatusCode r \<noteq> 403 \<and> Contains err ''already visited''"
  show "\<not> out_retry (createErrorHandler sha1hex cfg cache r err)"
    and "out_sleep (createErrorHandler sha1hex cfg cache r err) = None"
    and "out_attempt (createErrorHandler sha1hex cfg cache r err) = CtxAttempt r"
    and "out_cache (createErrorHandler sha1hex cfg cache r err) = cache"
    using c by (simp_all add: createErrorHandler_def Let_def)
next
  assume c: "StatusCode r \<noteq> 403 \<and> \<not> Contains err ''already visited'' \<and> attempt < MaxRetry cfg"
  then have lt: "attempt < MaxRetry cfg" by simp
  note e = backoff_linear_exact [OF assms(2) lt assms(3,4,5)] next_attempt_exact [OF assms(2) lt assms(3)]
  show "out_cache (createErrorHandler sha1hex cfg cache r err)
              = cache - {colly_cache_file sha1hex (collector_CacheDir cfg) (RequestURL r)}"
    if "CachePath cfg \<noteq> []"
    using c assms(1) cache_filename_is_collys [OF that, of sha1hex "RequestURL r"]
    by (simp add: createErrorHandler_def Let_def ClearCache_def)
  show "out_sleep (createErrorHandler sha1hex cfg cache r err) = Some (attempt * Delay cfg)"
    using c assms(1) e by (simp add: createErrorHandler_def Let_def)
  show "out_attempt (createErrorHandler sha1hex cfg cache r err) = Some (attempt + 1)"
    using c assms(1) e by (simp add: createErrorHandler_def Let_def)
  show "out_retry (createErrorHandler sha1hex cfg cache r err)"
    using c assms(1) by (simp add: createErrorHandler_def Let_def)
next
  assume c: "StatusCode r \<noteq> 403 \<and> \<not> Contains err ''already visited'' \<and> MaxRetry cfg \<le> attempt"
  show "\<not> out_retry (createErrorHandler sha1hex cfg cache r err)"
    and "out_sleep (createErrorHandler sha1hex cfg cache r err) = None"
    and "out_cache (createErrorHandler sha1hex cfg cache r err) = cache"
    and "list_ex (\<lambda>e. fst e = Error) (out_log (createErrorHandler sha1hex cfg cache r err))"
    using c assms(1) by (simp_all add: createErrorHandler_def Let_def)
next
  show "length (handle_failures sha1hex cfg (RequestURL r) failures cache (Some attempt))
           \<le> nat (MaxRetry cfg - attempt) + 1"
    using assms(3,2) by (rule handle_failures_bounded)
qed

theorem error_handler_retries_witness:
  "(2::int) = (case CtxAttempt (forbidden_response 2) of Some a \<Rightarrow> a | None \<Rightarrow> 1) \<and>
   (0::int) \<le> 2 \<and> MaxRetry DefaultConfig \<le> 32768 \<and>
   0 \<le> Delay DefaultConfig \<and> Delay DefaultConfig \<le> 2 ^ 47 \<and>
   StatusCode (forbidden_response 2) = 403 \<and> 2 < MaxRetry DefaultConfig \<and>
   CachePath DefaultConfig \<noteq> [] \<and>
   colly_cache_file stand_in_digest (collector_CacheDir DefaultConfig) (RequestURL (forbidden_response 2))
     = ''cache/scrape/0a/0a4d55a8d778e5022fab701977c5d840bbc486d0'' \<and>
   out_cache (createErrorHandler stand_in_digest DefaultConfig cache_with_two_files
                (forbidden_response 2) ''Forbidden'')
     = {''cache/scrape/5b/5baa61e4c9b93f3f0682250b6cf8331b7ee68fd8''} \<and>
   out_sleep (createErrorHandler stand_in_digest DefaultConfig cache_with_two_files
                (forbidden_response 2) ''Forbidden'')
     = Some (32 * Second) \<and>
   out_attempt (createErrorHandler stand_in_digest DefaultConfig cache_with_two_files
                  (forbidden_response 2) ''Forbidden'')
     = Some 3 \<and>
   out_retry (createErrorHandler stand_in_digest DefaultConfig cache_with_two_files
                (forbidden_response 2) ''Forbidden'')"
proof -
  have h1: "(2::int) = (case CtxAttempt (forbidden_response 2) of Some a \<Rightarrow> a | None \<Rightarrow> 1)"
    by (simp add: forbidden_response_def)
  have h2: "(0::int) \<le> 2" by simp
  have h3: "MaxRetry DefaultConfig \<le> 32768" by (simp add: DefaultConfig_def)
  have h4: "0 \<le> Delay DefaultConfig" by (simp add: DefaultConfig_def Second_def)
  have h5: "Delay DefaultConfig \<le> 2 ^ 47" by (simp add: DefaultConfig_def Second_def)
  have c: "StatusCode (forbidden_response 2) = 403 \<and> 2 < MaxRetry DefaultConfig"
    by (simp add: forbidden_response_def DefaultConfig_def)
  have p: "CachePath DefaultConfig \<noteq> []" by (simp add: DefaultConfig_def)
  have f: "colly_cache_file stand_in_digest (collector_CacheDir DefaultConfig)
             (RequestURL (forbidden_response 2))
           = ''cache/scrape/0a/0a4d55a8d778e5022fab701977c5d840bbc486d0''"
    by code_simp
  have d: "cache_with_two_files - {''cache/scrape/0a/0a4d55a8d778e5022fab701977c5d840bbc486d0''}
           = {''cache/scrape/5b/5baa61e4c9b93f3f0682250b6cf8331b7ee68fd8''}"
    by (simp add: cache_with_two_files_def)
  from c h1 h2 h3 h4 h5 p f d
    error_handler_retries [OF h1 h2 h3 h4 h5, of stand_in_digest cache_with_two_files
      "''Forbidden''" "[]"]
  show ?thesis by simp
qed

section \<open>Properties of the dataset processor\<close>

lemma Before_irrefl: "\<not> Before a a"
  by (simp add: Before_def)

lemma Before_trans: "Before a b \<Longrightarrow> Before b c \<Longrightarrow> Before a c"
  by (cases a; cases b; cases c) (auto simp: Before_def)




lemma set_insert_by [simp]: "set (insert_by lt x ys) = insert x (set ys)"
  by (induction ys) auto

lemma mset_insert_by [simp]: "mset (insert_by lt x ys) = add_mset x (mset ys)"
  by (induction ys) auto

lemma mset_sort_Slice [simp]: "mset (sort_Slice lt xs) = mset xs"
  by (induction xs) (simp_all add: sort_Slice_def)

lemma set_sort_Slice [simp]: "set (sort_Slice lt xs) = set xs"
  by (induction xs) (simp_all add: sort_Slice_def)












lemma fresh_id_greater: "i \<in> set ids \<Longrightarrow> i < fresh_id ids"
proof -
  assume "i \<in> set ids"
  then have "i \<le> Max (set (0 # ids))" by simp
  also have "Max (set (0 # ids)) = fold max ids 0" by (rule Max.set_eq_fold)
  finally show ?thesis by (simp add: fresh_id_def)
qed

lemma fresh_id_new: "fresh_id ids \<notin> set ids"
  using fresh_id_greater [of "fresh_id ids" ids] by auto

lemma preserves_refl: "ids_unique s \<Longrightarrow> preserves now s s"
  by (simp add: preserves_def)

lemma preserves_trans:
  assumes "preserves now s0 s1" and "preserves now s1 s2"
  shows "preserves now s0 s2"
  unfolding preserves_def
proof (intro conjI ballI impI)
  show "ids_unique s2" using assms(2) by (simp add: preserves_def)
next
  fix r assume r: "r \<in> set (restaurants s0)"
  from assms(1) r consider "r \<in> set (restaurants s1)"
    | "InGuide r = None" "fixed_null now r \<in> set (restaurants s1)"
    by (auto simp: preserves_def)
  then show "r \<in> set (restaurants s2) \<or> (InGuide r = None \<and> fixed_null now r \<in> set (restaurants s2))"
  proof cases
    case 1
    with assms(2) show ?thesis by (auto simp: preserves_def)
  next
    case 2
    have "InGuide (fixed_null now r) \<noteq> None" by (simp add: fixed_null_def)
    with assms(2) 2(2) have "fixed_null now r \<in> set (restaurants s2)"
      by (auto simp: preserves_def)
    with 2(1) show ?thesis by simp
  qed
next
  fix a assume a: "a \<in> set (awards s0)" and rid: "RestaurantID a \<in> ID ` set (restaurants s0)"
  from assms(1) a rid have "a \<in> set (awards s1)" and "RestaurantID a \<in> ID ` set (restaurants s1)"
    by (auto simp: preserves_def)
  with assms(2) show "a \<in> set (awards s2)" by (auto simp: preserves_def)
next
  have "ID ` set (restaurants s0) \<subseteq> ID ` set (restaurants s1)"
    and "ID ` set (restaurants s1) \<subseteq> ID ` set (restaurants s2)"
    using assms by (simp_all add: preserves_def)
  then show "ID ` set (restaurants s0) \<subseteq> ID ` set (restaurants s2)"
    by (rule subset_trans)
qed

lemma find_by_id_unique:
  "ids_unique s \<Longrightarrow> r \<in> set (restaurants s) \<Longrightarrow> find (\<lambda>x. ID x = ID r) (restaurants s) = Some r"
  by (rule find_unique_key [where f = ID]) (simp_all add: ids_unique_def)

lemma in_guide_column_row:
  "ids_unique s \<Longrightarrow> r \<in> set (restaurants s) \<Longrightarrow> in_guide_column (ID r) s = InGuide r"
  by (simp add: in_guide_column_def find_by_id_unique)

lemma update_in_guide_ids [simp]:
  "map ID (restaurants (update_in_guide now ids b s)) = map ID (restaurants s)"
  by (simp add: update_in_guide_def o_def)

lemma update_in_guide_null_preserves:
  assumes "ids_unique s" and "in_guide_column i s = None"
  shows "preserves now s (update_in_guide now [i] True s)"
  unfolding preserves_def
proof (intro conjI ballI impI)
  show "ids_unique (update_in_guide now [i] True s)"
    using assms(1) by (simp add: ids_unique_def)
next
  fix r assume r: "r \<in> set (restaurants s)"
  show "r \<in> set (restaurants (update_in_guide now [i] True s)) \<or>
        (InGuide r = None \<and> fixed_null now r \<in> set (restaurants (update_in_guide now [i] True s)))"
  proof (cases "ID r = i")
    case True
    with assms r have "InGuide r = None" using in_guide_column_row [of s r] by simp
    moreover have "fixed_null now r \<in> set (restaurants (update_in_guide now [i] True s))"
      using r True by (force simp: update_in_guide_def fixed_null_def)
    ultimately show ?thesis by simp
  next
    case False
    with r have "r \<in> set (restaurants (update_in_guide now [i] True s))"
      by (force simp: update_in_guide_def)
    then show ?thesis by simp
  qed
next
  fix a assume "a \<in> set (awards s)"
  then show "a \<in> set (awards (update_in_guide now [i] True s))" by simp
next
  show "ID ` set (restaurants s) \<subseteq> ID ` set (restaurants (update_in_guide now [i] True s))"
    using update_in_guide_ids [of now "[i]" True s] by (metis set_map subset_refl)
qed

lemma ids_unique_SaveAward [simp]: "ids_unique (SaveAward now a s) = ids_unique s"
  by (simp add: ids_unique_def)

lemma SaveAward_keeps_others:
  "a \<in> set (awards s) \<Longrightarrow> \<not> same_slot award a \<Longrightarrow> a \<in> set (awards (SaveAward now award s))"
proof (cases "find (same_slot award) (awards s)")
  case None
  assume "a \<in> set (awards s)"
  with None show ?thesis by (simp add: SaveAward_inserts)
next
  case (Some ex)
  assume a: "a \<in> set (awards s)" and n: "\<not> same_slot award a"
  show ?thesis
  proof (cases "WaybackURL ex = [] \<and> WaybackURL award \<noteq> []")
    case True
    with Some a show ?thesis by (simp add: SaveAward_rejected)
  next
    case False
    with Some have "awards (SaveAward now award s)
        = map (\<lambda>e. if same_slot award e then overwritten now award e else e) (awards s)"
      by (simp add: SaveAward_overwrites)
    with a n show ?thesis by force
  qed
qed

lemma SaveAward_new_slot_keeps:
  "find (same_slot award) (awards s) = None \<Longrightarrow> a \<in> set (awards s) \<Longrightarrow>
   a \<in> set (awards (SaveAward now award s))"
  by (simp add: SaveAward_inserts)

lemma SaveAward_preserves_restaurants:
  assumes "ids_unique s"
    and "\<forall>a \<in> set (awards s). RestaurantID a \<in> ID ` set (restaurants s) \<longrightarrow> \<not> same_slot award a"
  shows "preserves now s (SaveAward now award s)"
  using assms by (auto simp: preserves_def ids_unique_def SaveAward_keeps_others)

lemma getCurrentGuideRestaurant_preserves:
  assumes "ids_unique s"
  shows "preserves now s (snd (snd (getCurrentGuideRestaurant now w u s)))"
  using assms
  by (auto simp: getCurrentGuideRestaurant_def Let_def preserves_refl update_in_guide_null_preserves
      split: option.splits)

lemma getCurrentGuideRestaurant_awards [simp]:
  "awards (snd (snd (getCurrentGuideRestaurant now w u s))) = awards s"
  by (auto simp: getCurrentGuideRestaurant_def Let_def split: option.splits)

lemma addHistoricalAward_preserves:
  assumes "ids_unique s"
  shows "preserves now s (fst (addHistoricalAward tbl now c row year isRecent cig (s, fs)))"
proof (cases "find (\<lambda>e. RestaurantID e = ID c \<and> Year e = year) (awards s)")
  case (Some a)
  then show ?thesis using assms by (simp add: addHistoricalAward_def preserves_refl)
next
  case None
  let ?award = "dataset_award tbl (ID c) row year"
  let ?s1 = "if \<not> inGuide_bool c \<and> cig \<and> in_guide_column (ID c) s = None
             then update_in_guide now [ID c] True s else s"
  have eq: "same_slot ?award = (\<lambda>e. RestaurantID e = ID c \<and> Year e = year)"
    by (rule ext) (simp add: same_slot_def dataset_award_def)
  have p1: "preserves now s ?s1"
    using assms by (simp add: preserves_refl update_in_guide_null_preserves)
  then have u1: "ids_unique ?s1" by (simp add: preserves_def)
  have "awards ?s1 = awards s" by simp
  with None have none1: "\<forall>a \<in> set (awards ?s1). \<not> same_slot ?award a"
    by (simp add: eq find_None_iff)
  have p2: "preserves now ?s1 (SaveAward now ?award ?s1)"
    using u1 none1 by (intro SaveAward_preserves_restaurants) auto
  have "fst (addHistoricalAward tbl now c row year isRecent cig (s, fs)) = SaveAward now ?award ?s1"
    using None by (simp add: addHistoricalAward_def)
  with preserves_trans [OF p1 p2] show ?thesis by simp
qed

lemma createHistoricalRestaurant_preserves:
  assumes "ids_unique s"
  shows "preserves now s (fst (createHistoricalRestaurant tbl now row year isRecent (s, fs)))"
proof (cases "FindRestaurantByURL (h_URL row) s")
  case (Some c)
  then show ?thesis
    using addHistoricalAward_preserves [OF assms]
    by (simp add: createHistoricalRestaurant_def)
next
  case None
  define n where "n = fresh_id (map ID (restaurants s))"
  define newRestaurant where "newRestaurant =
     \<lparr>ID = n, URL = h_URL row, Name = h_Name row,
      Description = (if isRecent then ''Restaurant from current dataset''
                     else ''Restaurant from historical dataset''),
      Address = h_Address row, Location = h_Location row,
      Latitude = (if h_Latitude row = [] then ''0.0'' else h_Latitude row),
      Longitude = (if h_Longitude row = [] then ''0.0'' else h_Longitude row),
      Cuisine = (if h_Type row = [] then ''Unknown'' else h_Type row),
      PhoneNumber = h_PhoneNumber row, FacilitiesAndServices = [],
      WebsiteURL = h_WebsiteURL row, InGuide = Some isRecent,
      CreatedAt = now, UpdatedAt = now\<rparr>"
  define s1 where "s1 = s\<lparr>restaurants := restaurants s @ [newRestaurant]\<rparr>"
  have idn: "ID newRestaurant = n" by (simp add: newRestaurant_def)
  have new: "n \<notin> ID ` set (restaurants s)"
    using fresh_id_new [of "map ID (restaurants s)"] by (simp add: n_def)
  have u1: "ids_unique s1"
    using assms new by (simp add: s1_def ids_unique_def idn)
  have p1: "preserves now s s1"
    using u1 by (auto simp: preserves_def s1_def)
  have res: "fst (createHistoricalRestaurant tbl now row year isRecent (s, fs))
             = SaveAward now (dataset_award tbl n row year) s1"
    using None by (simp add: createHistoricalRestaurant_def Let_def s1_def newRestaurant_def n_def)
  have keep: "a \<in> set (awards (SaveAward now (dataset_award tbl n row year) s1))"
    if "a \<in> set (awards s)" "RestaurantID a \<in> ID ` set (restaurants s)" for a
  proof -
    from that(2) new have "RestaurantID a \<noteq> n" by auto
    then have "\<not> same_slot (dataset_award tbl n row year) a"
      by (simp add: same_slot_def dataset_award_def)
    moreover have "a \<in> set (awards s1)" using that(1) by (simp add: s1_def)
    ultimately show ?thesis by (rule SaveAward_keeps_others [rotated])
  qed
  show ?thesis
    unfolding res using p1 keep by (auto simp: preserves_def)
qed

lemma processHistoricalRestaurant_preserves:
  assumes "ids_unique s"
  shows "preserves now s (fst (processHistoricalRestaurant tbl oneMonthAgo now row year (s, fs)))"
proof -
  obtain found cig s1 where g: "getCurrentGuideRestaurant now (h_WebsiteURL row) (h_URL row) s = (found, cig, s1)"
    by (cases "getCurrentGuideRestaurant now (h_WebsiteURL row) (h_URL row) s") auto
  have p1: "preserves now s s1"
    using getCurrentGuideRestaurant_preserves [OF assms, of now "h_WebsiteURL row" "h_URL row"] g by simp
  then have u1: "ids_unique s1" by (simp add: preserves_def)
  show ?thesis
  proof (cases found)
    case None
    with g have "fst (processHistoricalRestaurant tbl oneMonthAgo now row year (s, fs))
          = fst (createHistoricalRestaurant tbl now row year (isRecentDataset oneMonthAgo (fs_Date fs))
               (s1, fs\<lparr>fs_NewRestaurants := fs_NewRestaurants fs + 1\<rparr>))"
      by (simp add: processHistoricalRestaurant_def)
    with preserves_trans [OF p1 createHistoricalRestaurant_preserves [OF u1]] show ?thesis by simp
  next
    case (Some c)
    with g have "fst (processHistoricalRestaurant tbl oneMonthAgo now row year (s, fs))
          = fst (addHistoricalAward tbl now c row year (isRecentDataset oneMonthAgo (fs_Date fs)) cig
               (s1, fs\<lparr>fs_ExistingRestaurants := fs_ExistingRestaurants fs + 1\<rparr>))"
      by (simp add: processHistoricalRestaurant_def)
    with preserves_trans [OF p1 addHistoricalAward_preserves [OF u1]] show ?thesis by simp
  qed
qed

lemma process_rows_preserves:
  "ids_unique s \<Longrightarrow>
   preserves now s (fst (snd (process_rows tbl oneMonthAgo now isRecent year rows (keys, s, fs))))"
proof (induction rows arbitrary: keys s fs)
  case Nil
  then show ?case by (simp add: preserves_refl)
next
  case (Cons row rows)
  obtain s1 fs1 where step: "processHistoricalRestaurant tbl oneMonthAgo now row year (s, fs) = (s1, fs1)"
    by (cases "processHistoricalRestaurant tbl oneMonthAgo now row year (s, fs)")
  have p1: "preserves now s s1"
    using processHistoricalRestaurant_preserves [OF Cons.prems, of now tbl oneMonthAgo row year fs] step by simp
  then have u1: "ids_unique s1" by (simp add: preserves_def)
  show ?case
    using preserves_trans [OF p1 Cons.IH [OF u1]] step by (simp add: Let_def)
qed

lemma rows_processed_eq:
  "(if 0 < limit \<and> limit < int (length rows) then take (nat limit) rows else rows)
     = rows_processed limit rows"
  by (simp add: rows_processed_def)

lemma processDatasetCSVFile_result:
  assumes "processDatasetCSVFile tbl oneMonthAgo now fs csvFile limit s = Inr (s', fileStats')"
    and "ParseDateFromFilenameWithFallback fs csvFile = Inr date"
  shows "\<exists>rows fs0 keys s1 fs1.
           parseHistoricalCSV fs csvFile = Inr rows \<and>
           process_rows tbl oneMonthAgo now (isRecentDataset oneMonthAgo date) (t_year date)
             (rows_processed limit rows) ([], s, fs0) = (keys, s1, fs1) \<and>
           (s', fileStats') =
             (if isRecentDataset oneMonthAgo date
              then updateMissingRestaurants now keys (s1, fs1) else (s1, fs1))"
proof (cases "parseHistoricalCSV fs csvFile")
  case (Inl e)
  with assms show ?thesis by (simp add: processDatasetCSVFile_def)
next
  case (Inr rows)
  let ?fs0 = "\<lparr>fs_FileName = Base csvFile, fs_Year = t_year date, fs_Date = date,
                fs_RestaurantsFound = length rows, fs_RestaurantsSkipped = 0, fs_NewRestaurants = 0,
                fs_ExistingRestaurants = 0, fs_AwardsAdded = 0, fs_AwardsSkipped = 0,
                fs_ProcessingErrors = 0, fs_RestaurantsRemovedFromGuide = 0\<rparr>"
  obtain keys s1 fs1 where pr:
    "process_rows tbl oneMonthAgo now (isRecentDataset oneMonthAgo date) (t_year date)
       (rows_processed limit rows) ([], s, ?fs0) = (keys, s1, fs1)"
    by (cases "process_rows tbl oneMonthAgo now (isRecentDataset oneMonthAgo date) (t_year date)
       (rows_processed limit rows) ([], s, ?fs0)") auto
  have "(s', fileStats') =
             (if isRecentDataset oneMonthAgo date
              then updateMissingRestaurants now keys (s1, fs1) else (s1, fs1))"
    using assms Inr pr
    by (simp add: processDatasetCSVFile_def Let_def rows_processed_eq split: if_splits)
  with Inr pr show ?thesis by blast
qed

text \<open>
  C6 (as amended). Processing a historical file leaves the row of every stored
  restaurant whose \<^verbatim>\<open>in_guide\<close> is set, \<^verbatim>\<open>true\<close> or \<^verbatim>\<open>false\<close>, exactly as
  it was; a stored restaurant whose \<^verbatim>\<open>in_guide\<close> is NULL is either left as it was or
  has it set to \<^verbatim>\<open>true\<close> (with \<^verbatim>\<open>updated_at\<close> stamped) and nothing else changed;
  and the awards the restaurant already had stay as they were, so that awards are only
  added.
\<close>

theorem historical_file_keeps_InGuide:
  assumes "processDatasetCSVFile tbl oneMonthAgo now fs csvFile limit s = Inr (s', fileStats')"
    and "ParseDateFromFilenameWithFallback fs csvFile = Inr date"
    and "\<not> isRecentDataset oneMonthAgo date"
    and "ids_unique s"
    and "r \<in> set (restaurants s)"
  shows "(InGuide r \<noteq> None \<longrightarrow> r \<in> set (restaurants s')) \<and>
         (InGuide r = None \<longrightarrow>
            r \<in> set (restaurants s') \<or>
            r\<lparr>InGuide := Some True, UpdatedAt := now\<rparr> \<in> set (restaurants s')) \<and>
         (\<forall>a \<in> set (awards s). RestaurantID a = ID r \<longrightarrow> a \<in> set (awards s'))"
proof -
  from processDatasetCSVFile_result [OF assms(1,2)] assms(3)
  obtain rows fs0 keys s1 fs1 where
    pr: "process_rows tbl oneMonthAgo now False (t_year date) (rows_processed limit rows) ([], s, fs0)
           = (keys, s1, fs1)"
    and res: "s' = s1"
    by auto
  have "preserves now s s'"
    using process_rows_preserves [OF assms(4), of now tbl oneMonthAgo False "t_year date"
        "rows_processed limit rows" "[]" fs0] pr res by simp
  with assms(5) show ?thesis
    by (auto simp: preserves_def fixed_null_def)
qed

lemma process_rows_keys:
  "set (fst (process_rows tbl oneMonthAgo now True year rows (keys, st))) = set keys \<union> csv_keys rows"
proof (induction rows arbitrary: keys st)
  case Nil
  then show ?case by (simp add: csv_keys_def)
next
  case (Cons row rows)
  have "csv_keys (row # rows) =
        {k. k \<noteq> [] \<and> (k = h_WebsiteURL row \<or> k = h_URL row)} \<union> csv_keys rows"
    by (auto simp: csv_keys_def)
  then show ?case
    by (auto simp: Cons.IH Let_def)
qed

lemma inCSV_listed:
  "set keys = csv_keys rows \<Longrightarrow> inCSV keys r = listed_in rows r"
  by (auto simp: inCSV_def listed_in_def csv_keys_def list_ex_iff)

lemma updateMissingRestaurants_absent:
  assumes "r \<in> set (restaurants s)" and "InGuide r = Some True" and "\<not> inCSV keys r"
  shows "r\<lparr>InGuide := Some False, UpdatedAt := now\<rparr>
           \<in> set (restaurants (fst (updateMissingRestaurants now keys (s, fs))))"
proof -
  let ?ids = "map ID (filter (\<lambda>r. \<not> inCSV keys r) (filter (\<lambda>r. InGuide r = Some True) (restaurants s)))"
  have mem: "ID r \<in> set ?ids" using assms by force
  then have ne: "?ids \<noteq> []" by (metis emptyE empty_set)
  have "r\<lparr>InGuide := Some False, UpdatedAt := now\<rparr>
          \<in> set (restaurants (update_in_guide now ?ids False s))"
    using assms(1) mem unfolding update_in_guide_def by (force simp del: set_filter filter_filter)
  then show ?thesis using ne by (simp add: updateMissingRestaurants_def Let_def)
qed

lemma updateMissingRestaurants_present:
  assumes "ids_unique s" and "r \<in> set (restaurants s)" and "inCSV keys r"
  shows "r \<in> set (restaurants (fst (updateMissingRestaurants now keys (s, fs))))"
proof -
  let ?ids = "map ID (filter (\<lambda>r. \<not> inCSV keys r) (filter (\<lambda>r. InGuide r = Some True) (restaurants s)))"
  have "ID r \<notin> set ?ids"
  proof
    assume "ID r \<in> set ?ids"
    then obtain x where x: "x \<in> set (restaurants s)" "\<not> inCSV keys x" "ID x = ID r" by auto
    from assms(1) x(1) assms(2) x(3) have "x = r"
      by (auto simp: ids_unique_def distinct_map inj_on_def)
    with x(2) assms(3) show False by simp
  qed
  then have "r \<in> set (restaurants (update_in_guide now ?ids False s))"
    using assms(2) unfolding update_in_guide_def by (force simp del: set_filter filter_filter)
  then show ?thesis using assms(2) by (simp add: updateMissingRestaurants_def Let_def)
qed

lemma listed_in_take: "listed_in (take n rows) r \<Longrightarrow> listed_in rows r"
  by (auto simp: listed_in_def list_ex_iff dest: in_set_takeD)

lemma recent_file_general:
  assumes "processDatasetCSVFile tbl oneMonthAgo now fs csvFile limit s = Inr (s', fileStats')"
    and "ParseDateFromFilenameWithFallback fs csvFile = Inr date"
    and "isRecentDataset oneMonthAgo date"
    and "parseHistoricalCSV fs csvFile = Inr rows"
    and "ids_unique s"
    and "r \<in> set (restaurants s)" and "InGuide r = Some True"
  shows "(\<not> listed_in (rows_processed limit rows) r \<longrightarrow>
            r\<lparr>InGuide := Some False, UpdatedAt := now\<rparr> \<in> set (restaurants s')) \<and>
         (listed_in (rows_processed limit rows) r \<longrightarrow> r \<in> set (restaurants s'))"
proof -
  from processDatasetCSVFile_result [OF assms(1,2)] assms(3,4)
  obtain fs0 keys s1 fs1 where
    pr: "process_rows tbl oneMonthAgo now True (t_year date) (rows_processed limit rows) ([], s, fs0)
           = (keys, s1, fs1)"
    and res: "(s', fileStats') = updateMissingRestaurants now keys (s1, fs1)"
    by auto
  have p: "preserves now s s1"
    using process_rows_preserves [OF assms(5), of now tbl oneMonthAgo True "t_year date"
        "rows_processed limit rows" "[]" fs0] pr by simp
  then have u1: "ids_unique s1" by (simp add: preserves_def)
  from p assms(6,7) have r1: "r \<in> set (restaurants s1)" by (auto simp: preserves_def)
  have "set keys = csv_keys (rows_processed limit rows)"
    using process_rows_keys [of tbl oneMonthAgo now "t_year date" "rows_processed limit rows" "[]" "(s, fs0)"] pr
    by simp
  then have l: "inCSV keys r = listed_in (rows_processed limit rows) r" by (rule inCSV_listed)
  have s': "s' = fst (updateMissingRestaurants now keys (s1, fs1))"
    using res by (metis fst_conv)
  show ?thesis
    unfolding s' l [symmetric]
    using updateMissingRestaurants_absent [OF r1 assms(7), of keys now fs1]
      updateMissingRestaurants_present [OF u1 r1, of keys now fs1]
    by blast
qed

text \<open>
  What the processor does for a recent file: a stored restaurant that was marked in the
  guide and is not listed in the rows of the file has \<^verbatim>\<open>InGuide\<close> set to
  \<^verbatim>\<open>false\<close>; when no limit cuts the rows, a stored in-guide restaurant that is
  listed keeps its row, and so \<^verbatim>\<open>InGuide = true\<close>. The loop over the rows alone
  leaves every in-guide restaurant as it was: the change is made by the pass after the
  loop.
\<close>

theorem recent_file_marks_missing:
  assumes "processDatasetCSVFile tbl oneMonthAgo now fs csvFile limit s = Inr (s', fileStats')"
    and "ParseDateFromFilenameWithFallback fs csvFile = Inr date"
    and "isRecentDataset oneMonthAgo date"
    and "parseHistoricalCSV fs csvFile = Inr rows"
    and "ids_unique s"
    and "r \<in> set (restaurants s)" and "InGuide r = Some True"
  shows "(\<not> listed_in rows r \<longrightarrow>
            r\<lparr>InGuide := Some False, UpdatedAt := now\<rparr> \<in> set (restaurants s')) \<and>
         ((limit \<le> 0 \<or> int (length rows) \<le> limit) \<and> listed_in rows r \<longrightarrow>
            r \<in> set (restaurants s')) \<and>
         r \<in> set (restaurants (fst (snd (process_rows tbl oneMonthAgo now True (t_year date)
                 (rows_processed limit rows) ([], s, fs0)))))"
proof (intro conjI impI)
  note g = recent_file_general [OF assms]
  show "r\<lparr>InGuide := Some False, UpdatedAt := now\<rparr> \<in> set (restaurants s')"
    if "\<not> listed_in rows r"
  proof -
    from that have "\<not> listed_in (rows_processed limit rows) r"
      by (auto simp: rows_processed_def dest: listed_in_take)
    with g show ?thesis by simp
  qed
  show "r \<in> set (restaurants s')"
    if "(limit \<le> 0 \<or> int (length rows) \<le> limit) \<and> listed_in rows r"
  proof -
    from that have "rows_processed limit rows = rows" by (auto simp: rows_processed_def)
    with that g show ?thesis by simp
  qed
  have "preserves now s (fst (snd (process_rows tbl oneMonthAgo now True (t_year date)
                 (rows_processed limit rows) ([], s, fs0))))"
    using assms(5) by (rule process_rows_preserves)
  with assms(6,7) show "r \<in> set (restaurants (fst (snd (process_rows tbl oneMonthAgo now True (t_year date)
                 (rows_processed limit rows) ([], s, fs0)))))"
    by (auto simp: preserves_def)
qed

lemma recent_example_run:
  "processDatasetCSVFile example_case_table (Time 2025 3 15 0) 50 recent_files ''data/2025-04-01_guide.csv'' 0 guide_store
     = Inr (guide_store_after, recent_stats_after)"
  by code_simp

lemma recent_example_facts:
  "ParseDateFromFilenameWithFallback recent_files ''data/2025-04-01_guide.csv'' = Inr (Time 2025 4 1 0)"
  "isRecentDataset (Time 2025 3 15 0) (Time 2025 4 1 0)"
  "parseHistoricalCSV recent_files ''data/2025-04-01_guide.csv'' = Inr recent_rows"
  "\<not> listed_in recent_rows restaurant_C"
  "listed_in recent_rows restaurant_A"
  by code_simp+

theorem recent_file_marks_missing_witness:
  "processDatasetCSVFile example_case_table (Time 2025 3 15 0) 50 recent_files ''data/2025-04-01_guide.csv'' 0 guide_store
     = Inr (guide_store_after, recent_stats_after) \<and>
   ParseDateFromFilenameWithFallback recent_files ''data/2025-04-01_guide.csv'' = Inr (Time 2025 4 1 0) \<and>
   isRecentDataset (Time 2025 3 15 0) (Time 2025 4 1 0) \<and>
   parseHistoricalCSV recent_files ''data/2025-04-01_guide.csv'' = Inr recent_rows \<and>
   ids_unique guide_store \<and>
   restaurant_C \<in> set (restaurants guide_store) \<and> InGuide restaurant_C = Some True \<and>
   \<not> listed_in recent_rows restaurant_C \<and>
   restaurant_C\<lparr>InGuide := Some False, UpdatedAt := 50\<rparr> \<in> set (restaurants guide_store_after) \<and>
   restaurant_A \<in> set (restaurants guide_store) \<and> InGuide restaurant_A = Some True \<and>
   listed_in recent_rows restaurant_A \<and>
   restaurant_A \<in> set (restaurants guide_store_after)"
proof -
  note f = recent_example_facts
  have u: "ids_unique guide_store"
    by (simp add: ids_unique_def guide_store_def restaurant_A_def restaurant_C_def)
  have c: "restaurant_C \<in> set (restaurants guide_store)" "InGuide restaurant_C = Some True"
    and a: "restaurant_A \<in> set (restaurants guide_store)" "InGuide restaurant_A = Some True"
    by (simp_all add: guide_store_def restaurant_A_def restaurant_C_def)
  have gone: "restaurant_C\<lparr>InGuide := Some False, UpdatedAt := 50\<rparr> \<in> set (restaurants guide_store_after)"
    using recent_file_marks_missing [OF recent_example_run f(1,2,3) u c, THEN conjunct1] f(4)
    by simp
  have kept: "restaurant_A \<in> set (restaurants guide_store_after)"
    using recent_file_marks_missing [OF recent_example_run f(1,2,3) u a, THEN conjunct2, THEN conjunct1] f(5)
    by simp
  show ?thesis
    by (intro conjI) (rule recent_example_run f u c a gone kept)+
qed

text \<open>
  C5. After a recent file is processed, every stored in-guide restaurant that the file
  does not list is to have \<^verbatim>\<open>InGuide\<close> false, and the restaurants the file lists
  are to keep \<^verbatim>\<open>InGuide\<close> true. The processor breaks the second half when it runs
  with a limit: \<^verbatim>\<open>restaurantsInCSV\<close> is filled from the rows it processes, the first
  \<open>limit\<close> ones, and the pass after the loop takes every other in-guide restaurant for
  missing. Here the file of 2025-04-01 lists restaurant B, then restaurant A; with the
  limit 1 the stored restaurant A, in the guide and listed by the file, is marked out of
  the guide along with restaurant C, which the file does not list.
\<close>

theorem recent_file_limit_marks_listed_restaurant:
  "processDatasetCSVFile example_case_table (Time 2025 3 15 0) 50 recent_files_B_first
     ''data/2025-04-01_guide.csv'' 1 guide_store
     = Inr (guide_store_limited, limited_stats_after) \<and>
   isRecentDataset (Time 2025 3 15 0) (Time 2025 4 1 0) \<and>
   parseHistoricalCSV recent_files_B_first ''data/2025-04-01_guide.csv'' = Inr (rev recent_rows) \<and>
   restaurants guide_store = [restaurant_A, restaurant_C] \<and>
   InGuide restaurant_A = Some True \<and>
   listed_in (rev recent_rows) restaurant_A \<and>
   restaurants guide_store_limited =
     [restaurant_A\<lparr>InGuide := Some False, UpdatedAt := 50\<rparr>,
      restaurant_C\<lparr>InGuide := Some False, UpdatedAt := 50\<rparr>,
      restaurant_B] \<and>
   fs_RestaurantsRemovedFromGuide limited_stats_after = 2"
proof -
  have run: "processDatasetCSVFile example_case_table (Time 2025 3 15 0) 50 recent_files_B_first
     ''data/2025-04-01_guide.csv'' 1 guide_store
     = Inr (guide_store_limited, limited_stats_after)"
    by code_simp
  have facts: "isRecentDataset (Time 2025 3 15 0) (Time 2025 4 1 0)"
    "parseHistoricalCSV recent_files_B_first ''data/2025-04-01_guide.csv'' = Inr (rev recent_rows)"
    "listed_in (rev recent_rows) restaurant_A"
    by code_simp+
  have rest: "restaurants guide_store = [restaurant_A, restaurant_C]"
    "InGuide restaurant_A = Some True"
    "restaurants guide_store_limited =
       [restaurant_A\<lparr>InGuide := Some False, UpdatedAt := 50\<rparr>,
        restaurant_C\<lparr>InGuide := Some False, UpdatedAt := 50\<rparr>,
        restaurant_B]"
    "fs_RestaurantsRemovedFromGuide limited_stats_after = 2"
    by (simp_all add: guide_store_def restaurant_A_def guide_store_limited_def
        limited_stats_after_def)
  show ?thesis
    by (intro conjI) (rule run facts rest)+
qed

lemma historical_example_run:
  "processDatasetCSVFile example_case_table (Time 2025 3 15 0) 50 historical_files ''data/2019-06-01_guide.csv'' 0 old_store
     = Inr (old_store_after, historical_stats_after)"
  by code_simp

lemma historical_example_facts:
  "ParseDateFromFilenameWithFallback historical_files ''data/2019-06-01_guide.csv'' = Inr (Time 2019 6 1 0)"
  "\<not> isRecentDataset (Time 2025 3 15 0) (Time 2019 6 1 0)"
  by code_simp+

theorem historical_file_keeps_InGuide_witness:
  "processDatasetCSVFile example_case_table (Time 2025 3 15 0) 50 historical_files ''data/2019-06-01_guide.csv'' 0 old_store
     = Inr (old_store_after, historical_stats_after) \<and>
   ParseDateFromFilenameWithFallback historical_files ''data/2019-06-01_guide.csv'' = Inr (Time 2019 6 1 0) \<and>
   \<not> isRecentDataset (Time 2025 3 15 0) (Time 2019 6 1 0) \<and>
   ids_unique old_store \<and> restaurant_H \<in> set (restaurants old_store) \<and>
   InGuide restaurant_H \<noteq> None \<and>
   restaurant_H \<in> set (restaurants old_store_after)"
proof -
  note f = historical_example_facts
  have u: "ids_unique old_store"
    by (simp add: ids_unique_def old_store_def restaurant_N_def restaurant_H_def)
  have h: "restaurant_H \<in> set (restaurants old_store)" and g: "InGuide restaurant_H \<noteq> None"
    by (simp_all add: old_store_def restaurant_H_def)
  have kept: "restaurant_H \<in> set (restaurants old_store_after)"
    using historical_file_keeps_InGuide [OF historical_example_run f(1,2) u h, THEN conjunct1] g
    by simp
  show ?thesis
    by (intro conjI) (rule historical_example_run f u h g kept)+
qed

text \<open>
  C6 as stated fails: a historical file that lists a stored restaurant whose
  \<^verbatim>\<open>in_guide\<close> is NULL, which Go reads as \<^verbatim>\<open>false\<close>, sets it to \<^verbatim>\<open>true\<close>.
\<close>

theorem historical_file_sets_null_InGuide_counterexample:
  "\<not> isRecentDataset (Time 2025 3 15 0) (Time 2019 6 1 0) \<and>
   ParseDateFromFilenameWithFallback historical_files ''data/2019-06-01_guide.csv'' = Inr (Time 2019 6 1 0) \<and>
   processDatasetCSVFile example_case_table (Time 2025 3 15 0) 50 historical_files ''data/2019-06-01_guide.csv'' 0 old_store
     = Inr (old_store_after, historical_stats_after) \<and>
   map InGuide (restaurants old_store) = [None, Some False] \<and>
   map inGuide_bool (restaurants old_store) = [False, False] \<and>
   map InGuide (restaurants old_store_after) = [Some True, Some False] \<and>
   map inGuide_bool (restaurants old_store_after) = [True, False]"
proof -
  have "map InGuide (restaurants old_store) = [None, Some False]"
    and "map inGuide_bool (restaurants old_store) = [False, False]"
    and "map InGuide (restaurants old_store_after) = [Some True, Some False]"
    and "map inGuide_bool (restaurants old_store_after) = [True, False]"
    by (simp_all add: old_store_def old_store_after_def restaurant_N_def restaurant_H_def inGuide_bool_def)
  with historical_example_run historical_example_facts show ?thesis by simp
qed

section \<open>The operations keep the constraints\<close>

text \<open>The hypotheses of the properties above hold along every run: \<open>SaveAward\<close>
  keeps (restaurant, year) unique, and the upsert keeps the primary key unique, as the
  dataset processor does (\<open>process_rows_preserves\<close>).\<close>

lemma slot_overwritten [simp]: "slot (overwritten now award e) = slot e"
  by (simp add: slot_def overwritten_def)

lemma SaveAward_keeps_awards_unique:
  assumes "awards_unique s"
  shows "awards_unique (SaveAward now award s)"
proof (cases "find (same_slot award) (awards s)")
  case None
  then have "slot award \<notin> slot ` set (awards s)"
    by (auto simp: find_None_iff same_slot_iff)
  with assms None show ?thesis
    by (simp add: SaveAward_inserts awards_unique_def slot_def)
next
  case (Some ex)
  show ?thesis
  proof (cases "WaybackURL ex = [] \<and> WaybackURL award \<noteq> []")
    case True
    with Some assms show ?thesis by (simp add: SaveAward_rejected)
  next
    case False
    let ?f = "\<lambda>e. if same_slot award e then overwritten now award e else e"
    have a: "awards (SaveAward now award s) = map ?f (awards s)"
      using Some False by (simp add: SaveAward_overwrites)
    have "map slot (map ?f (awards s)) = map slot (awards s)"
      unfolding map_map by (rule map_cong) auto
    then have "distinct (map slot (map ?f (awards s)))"
      using assms by (simp only: awards_unique_def)
    then show ?thesis by (simp only: awards_unique_def a)
  qed
qed

lemma Upsert_keeps_ids_unique:
  assumes "ids_unique s"
  shows "ids_unique (fst (UpsertRestaurantWithAward now data s))"
proof (cases "find (\<lambda>r. URL r = d_URL data) (restaurants s)")
  case None
  then show ?thesis
    using assms fresh_id_new [of "map ID (restaurants s)"]
    by (simp add: UpsertRestaurantWithAward_def Let_def ids_unique_def)
next
  case (Some ex)
  have "map ID (save_restaurant r (restaurants s)) = map ID (restaurants s)" for r
    by (auto simp: save_restaurant_def intro: map_cong)
  with Some assms show ?thesis
    by (simp add: UpsertRestaurantWithAward_def Let_def ids_unique_def)
qed

end
